theory Spec2Isabelle
  imports Main "HOL-Library.Word"
begin

section \<open>The matrix class template of matrix.hpp\<close>

text \<open>
  The class template \<^verbatim>\<open>matrix<T>\<close> keeps \<^verbatim>\<open>rows\<close> and \<^verbatim>\<open>cols\<close> of type
  \<^verbatim>\<open>size_t\<close>, a raw pointer \<^verbatim>\<open>elements\<close> and an owning
  \<^verbatim>\<open>std::unique_ptr<T[]> smart\<close>. The element buffer lives on the heap, so the model
  has an explicit heap of arrays; \<^verbatim>\<open>size_t\<close> is a machine word of some width \<open>'w\<close>
  (its arithmetic wraps); the element type \<open>T\<close> is a type variable \<open>'a\<close> whose operators
  are the ones of the type classes \<open>zero\<close>, \<open>plus\<close>, \<open>minus\<close>, \<open>uminus\<close>, \<open>times\<close>.
\<close>

subsection \<open>Exceptions and undefined behaviour\<close>

text \<open>
  The five exception classes nested in \<^verbatim>\<open>matrix<T>\<close>. The sixth value is not an
  exception of the source: it marks executions that C++ leaves undefined (an access
  outside a buffer or through a null or dangling pointer, the read of an element that was
  never written, \<^verbatim>\<open>delete[]\<close> of storage that is not live).
\<close>

datatype error =
    zero_size
  | initializer_wrong_size
  | incompatible_sizes_add
  | incompatible_sizes_multiply
  | index_out_of_range
  | undefined_behavior

subsection \<open>The heap of element buffers\<close>

text \<open>
  An address is the position of a buffer in the list of all buffers ever allocated by
  \<^verbatim>\<open>new T[n]\<close>. A live buffer is \<open>Some cells\<close>, a buffer released by \<^verbatim>\<open>delete[]\<close>
  is \<open>None\<close>. A cell is \<open>None\<close> until it is written (\<^verbatim>\<open>new T[n]\<close> leaves the elements
  indeterminate). The field \<open>deleted\<close> logs every \<^verbatim>\<open>delete[]\<close> in order. Allocation is
  taken to succeed (no \<^verbatim>\<open>std::bad_alloc\<close>).
\<close>

type_synonym addr = nat

record 'a heap =
  arrays :: "'a option list option list"
  deleted :: "addr list"

definition lookup :: "'a heap \<Rightarrow> addr \<Rightarrow> 'a option list option" where
  "lookup h p = (if p < length (arrays h) then arrays h ! p else None)"

definition new_array :: "nat \<Rightarrow> 'a heap \<Rightarrow> addr \<times> 'a heap" where
  "new_array n h = (length (arrays h), h\<lparr>arrays := arrays h @ [Some (replicate n None)]\<rparr>)"

definition delete_array :: "addr \<Rightarrow> 'a heap \<Rightarrow> (error + unit) \<times> 'a heap" where
  "delete_array p h =
     (case lookup h p of
        None \<Rightarrow> (Inl undefined_behavior, h)
      | Some buf \<Rightarrow> (Inr (), h\<lparr>arrays := (arrays h)[p := None], deleted := deleted h @ [p]\<rparr>))"

text \<open>\<^verbatim>\<open>ptr[k]\<close> read as a value, and \<^verbatim>\<open>ptr[k] = v\<close>.\<close>

definition read_elem :: "addr option \<Rightarrow> nat \<Rightarrow> 'a heap \<Rightarrow> error + 'a" where
  "read_elem ptr k h =
     (case ptr of
        None \<Rightarrow> Inl undefined_behavior
      | Some p \<Rightarrow>
          (case lookup h p of
             None \<Rightarrow> Inl undefined_behavior
           | Some buf \<Rightarrow>
               if k < length buf
               then (case buf ! k of None \<Rightarrow> Inl undefined_behavior | Some v \<Rightarrow> Inr v)
               else Inl undefined_behavior))"

definition write_elem :: "addr option \<Rightarrow> nat \<Rightarrow> 'a \<Rightarrow> 'a heap \<Rightarrow> (error + unit) \<times> 'a heap" where
  "write_elem ptr k v h =
     (case ptr of
        None \<Rightarrow> (Inl undefined_behavior, h)
      | Some p \<Rightarrow>
          (case lookup h p of
             None \<Rightarrow> (Inl undefined_behavior, h)
           | Some buf \<Rightarrow>
               if k < length buf
               then (Inr (), h\<lparr>arrays := (arrays h)[p := Some (buf[k := Some v])]\<rparr>)
               else (Inl undefined_behavior, h)))"

text \<open>
  What \<^verbatim>\<open>std::unique_ptr<T[]>\<close> does with the pointer it gives up (in its destructor, in
  \<^verbatim>\<open>reset\<close> and in move assignment): \<^verbatim>\<open>delete[]\<close> unless it is null.
\<close>

definition unique_ptr_dispose :: "addr option \<Rightarrow> 'a heap \<Rightarrow> (error + unit) \<times> 'a heap" where
  "unique_ptr_dispose old h = (case old of None \<Rightarrow> (Inr (), h) | Some q \<Rightarrow> delete_array q h)"

text \<open>\<^verbatim>\<open>v[i]\<close> on a \<^verbatim>\<open>std::vector<T>\<close>: undefined outside the vector.\<close>

definition vector_index :: "'a list \<Rightarrow> 'w::len word \<Rightarrow> error + 'a" where
  "vector_index v i = (if unat i < length v then Inr (v ! unat i) else Inl undefined_behavior)"

subsection \<open>Statements\<close>

text \<open>
  A statement runs on a state and ends normally with a value or with an \<open>error\<close>; the
  state at that moment is returned in both cases.
\<close>

type_synonym ('s, 'r) exec = "'s \<Rightarrow> (error + 'r) \<times> 's"

definition return_ok :: "'r \<Rightarrow> ('s, 'r) exec" where
  "return_ok x s = (Inr x, s)"

definition throw :: "error \<Rightarrow> ('s, 'r) exec" where
  "throw e s = (Inl e, s)"

definition seq :: "('s, 'q) exec \<Rightarrow> ('q \<Rightarrow> ('s, 'r) exec) \<Rightarrow> ('s, 'r) exec" where
  "seq m f s = (case m s of (Inl e, s') \<Rightarrow> (Inl e, s') | (Inr x, s') \<Rightarrow> f x s')"

definition pure_read :: "('s \<Rightarrow> error + 'r) \<Rightarrow> ('s, 'r) exec" where
  "pure_read r s = (r s, s)"

text \<open>\<^verbatim>\<open>for (size_t i{i0}; i < n; i++) body\<close>, the counter a machine word.\<close>

function for_loop :: "'w::len word \<Rightarrow> 'w word \<Rightarrow> ('w word \<Rightarrow> ('s, unit) exec) \<Rightarrow> ('s, unit) exec" where
  "for_loop i n body s =
     (if i < n
      then (case body i s of
              (Inl e, s') \<Rightarrow> (Inl e, s')
            | (Inr u, s') \<Rightarrow> for_loop (i + 1) n body s')
      else (Inr (), s))"
  by pat_completeness auto
termination
proof (relation "measure (\<lambda>(i, n, body, s). unat n - unat i)", goal_cases)
  case 1
  show ?case by simp
next
  case (2 i n body s x r s')
  from \<open>i < n\<close> have lt: "unat i < unat n"
    by (simp add: word_less_nat_alt)
  from \<open>i < n\<close> have "1 + i \<noteq> 0"
    by (metis eq_neg_iff_add_eq_0 verit_minus_simplify(4) word_order.extremum_strict)
  then have "unat (1 + i) = Suc (unat i)"
    by (rule unatSuc)
  with lt show ?case
    by (simp add: add.commute)
qed

declare for_loop.simps [simp del]

subsection \<open>The class\<close>

text \<open>
  The data members. The type parameter \<open>'n\<close> is the type of \<^verbatim>\<open>size_t\<close>; it is always
  used at a word type \<open>'w word\<close>.
\<close>

record 'n matrix =
  rows :: 'n
  cols :: 'n
  elements :: "addr option"
  smart :: "addr option"

subsubsection \<open>Constructors\<close>

text \<open>
  \<^verbatim>\<open>matrix(const size_t &input_rows, const size_t &input_cols)\<close>: the members are
  initialised, the sizes are checked, and only then the buffer is allocated. When the
  constructor throws, the object does not come into existence: the result is the exception
  and the heap as it is at the \<^verbatim>\<open>throw\<close>.
\<close>

definition matrix_uninitialized ::
  "'w::len word \<Rightarrow> 'w word \<Rightarrow> ('a heap, 'w word matrix) exec" where
  "matrix_uninitialized input_rows input_cols h =
     (if input_rows = 0 \<or> input_cols = 0 then throw zero_size h
      else
        let (p, h') = new_array (unat (input_rows * input_cols)) h
        in return_ok \<lparr>rows = input_rows, cols = input_cols, elements = Some p, smart = Some p\<rparr> h')"

text \<open>\<^verbatim>\<open>matrix(const size_t &input_rows, const size_t &input_cols, const T &input_init)\<close>\<close>

definition matrix_init ::
  "'w::len word \<Rightarrow> 'w word \<Rightarrow> 'a \<Rightarrow> ('a heap, 'w word matrix) exec" where
  "matrix_init input_rows input_cols input_init h =
     (if input_rows = 0 \<or> input_cols = 0 then throw zero_size h
      else
        let (p, h') = new_array (unat (input_rows * input_cols)) h;
            this = \<lparr>rows = input_rows, cols = input_cols, elements = Some p, smart = Some p\<rparr>
        in seq (for_loop 0 (rows this * cols this)
                  (\<lambda>i. write_elem (elements this) (unat i) input_init))
               (\<lambda>_. return_ok this) h')"

text \<open>
  \<^verbatim>\<open>matrix(const std::vector<T> &input_diagonal)\<close>. \<^verbatim>\<open>input_diagonal.size()\<close> is a
  \<^verbatim>\<open>size_t\<close>; a vector has fewer than \<open>2 ^ LENGTH('w)\<close> elements.
\<close>

definition matrix_diagonal ::
  "'a::zero list \<Rightarrow> ('a heap, 'w::len word matrix) exec" where
  "matrix_diagonal input_diagonal h =
     (let n = (of_nat (length input_diagonal) :: 'w word)
      in if n = 0 then throw zero_size h
         else
           let (p, h') = new_array (unat (n * n)) h;
               this = \<lparr>rows = n, cols = n, elements = Some p, smart = Some p\<rparr>
           in seq (for_loop 0 (rows this)
                     (\<lambda>i. for_loop 0 (cols this)
                        (\<lambda>j. seq (if i = j then pure_read (\<lambda>_. vector_index input_diagonal i)
                                   else return_ok 0)
                                  (\<lambda>v. write_elem (elements this) (unat (cols this * i + j)) v))))
                  (\<lambda>_. return_ok this) h')"

text \<open>\<^verbatim>\<open>matrix(const std::initializer_list<T> &input_diagonal)\<close> delegates.\<close>

definition matrix_diagonal_il ::
  "'a::zero list \<Rightarrow> ('a heap, 'w::len word matrix) exec" where
  "matrix_diagonal_il input_diagonal = matrix_diagonal input_diagonal"

text \<open>
  \<^verbatim>\<open>matrix(const size_t &input_rows, const size_t &input_cols,
  const std::vector<T> &input_elements)\<close>
\<close>

definition matrix_elements ::
  "'w::len word \<Rightarrow> 'w word \<Rightarrow> 'a list \<Rightarrow> ('a heap, 'w word matrix) exec" where
  "matrix_elements input_rows input_cols input_elements h =
     (if input_rows = 0 \<or> input_cols = 0 then throw zero_size h
      else if (of_nat (length input_elements) :: 'w word) \<noteq> input_rows * input_cols
      then throw initializer_wrong_size h
      else
        let (p, h') = new_array (unat (input_rows * input_cols)) h;
            this = \<lparr>rows = input_rows, cols = input_cols, elements = Some p, smart = Some p\<rparr>
        in seq (for_loop 0 (rows this * cols this)
                  (\<lambda>i. seq (pure_read (\<lambda>_. vector_index input_elements i))
                            (\<lambda>v. write_elem (elements this) (unat i) v)))
               (\<lambda>_. return_ok this) h')"

text \<open>The \<^verbatim>\<open>initializer_list\<close> form delegates.\<close>

definition matrix_elements_il ::
  "'w::len word \<Rightarrow> 'w word \<Rightarrow> 'a list \<Rightarrow> ('a heap, 'w word matrix) exec" where
  "matrix_elements_il input_rows input_cols input_elements =
     matrix_elements input_rows input_cols input_elements"

text \<open>\<^verbatim>\<open>matrix(const matrix<T> &m)\<close>: no size check.\<close>

definition matrix_copy :: "'w::len word matrix \<Rightarrow> ('a heap, 'w word matrix) exec" where
  "matrix_copy m h =
     (let (p, h') = new_array (unat (rows m * cols m)) h;
          this = \<lparr>rows = rows m, cols = cols m, elements = Some p, smart = Some p\<rparr>
      in seq (for_loop 0 (rows this * cols this)
                (\<lambda>i. seq (pure_read (read_elem (elements m) (unat i)))
                          (\<lambda>v. write_elem (elements this) (unat i) v)))
             (\<lambda>_. return_ok this) h')"

text \<open>
  \<^verbatim>\<open>matrix(matrix<T> &&m)\<close>: the new object and the source after the move. The heap is
  not an argument: the constructor neither allocates nor touches an element. The new
  \<^verbatim>\<open>smart\<close> is empty before the move assignment, which therefore deletes nothing.
\<close>

definition matrix_move :: "'n::zero matrix \<Rightarrow> 'n matrix \<times> 'n matrix" where
  "matrix_move m =
     (\<lparr>rows = rows m, cols = cols m, elements = smart m, smart = smart m\<rparr>,
      \<lparr>rows = 0, cols = 0, elements = None, smart = None\<rparr>)"

subsubsection \<open>Member functions\<close>

text \<open>
  \<^verbatim>\<open>operator=(matrix<T> &&m)\<close> on two distinct objects: the target and the source after
  the assignment. The move assignment of \<^verbatim>\<open>smart\<close> disposes of the target's old buffer.
\<close>

definition operator_assign_move ::
  "'n::zero matrix \<Rightarrow> 'n matrix \<Rightarrow> ('a heap, 'n matrix \<times> 'n matrix) exec" where
  "operator_assign_move this m h =
     seq (unique_ptr_dispose (smart this))
         (\<lambda>_. return_ok
            (\<lparr>rows = rows m, cols = cols m, elements = smart m, smart = smart m\<rparr>,
             \<lparr>rows = 0, cols = 0, elements = None, smart = None\<rparr>)) h"

text \<open>The implicit destructor: only \<^verbatim>\<open>smart\<close> has something to do.\<close>

definition matrix_destroy :: "'n matrix \<Rightarrow> ('a heap, unit) exec" where
  "matrix_destroy m h = unique_ptr_dispose (smart m) h"

text \<open>
  \<^verbatim>\<open>operator()(row, col)\<close>, without range check: the \<^verbatim>\<open>const\<close> form returns the value,
  the other a reference, used as \<^verbatim>\<open>m(row, col) = v\<close> and \<^verbatim>\<open>m(row, col) += v\<close>.
\<close>

definition operator_call :: "'w::len word matrix \<Rightarrow> 'w word \<Rightarrow> 'w word \<Rightarrow> 'a heap \<Rightarrow> error + 'a" where
  "operator_call m row col h = read_elem (elements m) (unat (cols m * row + col)) h"

definition operator_call_assign ::
  "'w::len word matrix \<Rightarrow> 'w word \<Rightarrow> 'w word \<Rightarrow> 'a \<Rightarrow> ('a heap, unit) exec" where
  "operator_call_assign m row col v h = write_elem (elements m) (unat (cols m * row + col)) v h"

definition operator_call_add_assign ::
  "'w::len word matrix \<Rightarrow> 'w word \<Rightarrow> 'w word \<Rightarrow> 'a::plus \<Rightarrow> ('a heap, unit) exec" where
  "operator_call_add_assign m row col v h =
     seq (pure_read (operator_call m row col))
         (\<lambda>x. operator_call_assign m row col (x + v)) h"

text \<open>\<^verbatim>\<open>at(row, col)\<close>, with range check, in its two forms.\<close>

definition at :: "'w::len word matrix \<Rightarrow> 'w word \<Rightarrow> 'w word \<Rightarrow> 'a heap \<Rightarrow> error + 'a" where
  "at m row col h =
     (if row \<ge> rows m \<or> col \<ge> cols m then Inl index_out_of_range
      else read_elem (elements m) (unat (cols m * row + col)) h)"

definition at_assign ::
  "'w::len word matrix \<Rightarrow> 'w word \<Rightarrow> 'w word \<Rightarrow> 'a \<Rightarrow> ('a heap, unit) exec" where
  "at_assign m row col v h =
     (if row \<ge> rows m \<or> col \<ge> cols m then throw index_out_of_range h
      else write_elem (elements m) (unat (cols m * row + col)) v h)"

subsubsection \<open>Arithmetic operators\<close>

text \<open>
  The local \<^verbatim>\<open>c\<close> is returned by value; the returned object is \<^verbatim>\<open>c\<close> itself (copy
  elision, or the move constructor followed by the destruction of the emptied local, which
  leaves the same object and the same heap).
\<close>

definition operator_plus ::
  "'w::len word matrix \<Rightarrow> 'w word matrix \<Rightarrow> ('a::plus heap, 'w word matrix) exec" where
  "operator_plus a b h =
     (if rows a \<noteq> rows b \<or> cols a \<noteq> cols b then throw incompatible_sizes_add h
      else
        seq (matrix_uninitialized (rows a) (cols a))
            (\<lambda>c. seq (for_loop 0 (rows a)
                         (\<lambda>i. for_loop 0 (cols a)
                            (\<lambda>j. seq (pure_read (operator_call a i j))
                               (\<lambda>x. seq (pure_read (operator_call b i j))
                                  (\<lambda>y. operator_call_assign c i j (x + y))))))
                      (\<lambda>_. return_ok c)) h)"

definition operator_neg ::
  "'w::len word matrix \<Rightarrow> ('a::uminus heap, 'w word matrix) exec" where
  "operator_neg m h =
     seq (matrix_uninitialized (rows m) (cols m))
         (\<lambda>c. seq (for_loop 0 (rows m)
                      (\<lambda>i. for_loop 0 (cols m)
                         (\<lambda>j. seq (pure_read (operator_call m i j))
                            (\<lambda>x. operator_call_assign c i j (- x)))))
                   (\<lambda>_. return_ok c)) h"

definition operator_minus ::
  "'w::len word matrix \<Rightarrow> 'w word matrix \<Rightarrow> ('a::minus heap, 'w word matrix) exec" where
  "operator_minus a b h =
     (if rows a \<noteq> rows b \<or> cols a \<noteq> cols b then throw incompatible_sizes_add h
      else
        seq (matrix_uninitialized (rows a) (cols a))
            (\<lambda>c. seq (for_loop 0 (rows a)
                         (\<lambda>i. for_loop 0 (cols a)
                            (\<lambda>j. seq (pure_read (operator_call a i j))
                               (\<lambda>x. seq (pure_read (operator_call b i j))
                                  (\<lambda>y. operator_call_assign c i j (x - y))))))
                      (\<lambda>_. return_ok c)) h)"

definition operator_times ::
  "'w::len word matrix \<Rightarrow> 'w word matrix \<Rightarrow> ('a::{zero,plus,times} heap, 'w word matrix) exec" where
  "operator_times a b h =
     (if cols a \<noteq> rows b then throw incompatible_sizes_multiply h
      else
        seq (matrix_uninitialized (rows a) (cols b))
            (\<lambda>c. seq (for_loop 0 (rows a)
                         (\<lambda>i. for_loop 0 (cols b)
                            (\<lambda>j. seq (operator_call_assign c i j 0)
                               (\<lambda>_. for_loop 0 (cols a)
                                  (\<lambda>k. seq (pure_read (operator_call a i k))
                                     (\<lambda>x. seq (pure_read (operator_call b k j))
                                        (\<lambda>y. operator_call_add_assign c i j (x * y))))))))
                      (\<lambda>_. return_ok c)) h)"

subsubsection \<open>Printing\<close>

text \<open>
  The static data member \<^verbatim>\<open>output_width\<close>, one variable for all matrices of the element
  type, with its initialiser and its setter.
\<close>

record statics =
  output_width :: int

definition initial_statics :: statics where
  "initial_statics = \<lparr>output_width = 5\<rparr>"

definition set_output_width :: "int \<Rightarrow> statics \<Rightarrow> statics" where
  "set_output_width w st = st\<lparr>output_width := w\<rparr>"

text \<open>
  The output stream is the string of the characters written so far, with the stream's
  default flags: \<^verbatim>\<open>std::setw(w)\<close> pads the next item on the left with spaces up to the
  width \<open>w\<close>, and never truncates. The text of an element is \<open>shw v\<close>, where \<open>shw\<close>
  stands for the \<^verbatim>\<open><<\<close> of the element type.
\<close>

definition newline :: char where
  "newline = CHR 0x0A"

definition put :: "string \<Rightarrow> (string, unit) exec" where
  "put s out = (Inr (), out @ s)"

definition setw_put :: "int \<Rightarrow> string \<Rightarrow> string" where
  "setw_put w s = replicate (nat (w - int (length s))) CHR '' '' @ s"

definition operator_shl ::
  "('a \<Rightarrow> string) \<Rightarrow> statics \<Rightarrow> 'a heap \<Rightarrow> 'w::len word matrix \<Rightarrow> (string, unit) exec" where
  "operator_shl shw st h m out =
     (if rows m = 0 \<and> cols m = 0 then put (''()'' @ [newline]) out
      else
        seq (for_loop 0 (rows m)
               (\<lambda>i. seq (put ''( '')
                  (\<lambda>_. seq (for_loop 0 (cols m)
                               (\<lambda>j. seq (pure_read (\<lambda>_. operator_call m i j h))
                                  (\<lambda>v. put (setw_put (output_width st) (shw v) @ '' ''))))
                     (\<lambda>_. put ('')'' @ [newline])))))
            (\<lambda>_. put [newline]) out)"

subsection \<open>An element type: \<^verbatim>\<open>bool\<close>\<close>

text \<open>
  The class template asks nothing of \<open>T\<close> beyond the operators it applies, so
  \<^verbatim>\<open>matrix<bool>\<close> is one of its instances. C++ has no arithmetic on \<^verbatim>\<open>bool\<close> itself:
  in \<^verbatim>\<open>x + y\<close>, \<^verbatim>\<open>x - y\<close>, \<^verbatim>\<open>-x\<close> and \<^verbatim>\<open>x * y\<close> the operands are promoted to
  \<^verbatim>\<open>int\<close> (\<^verbatim>\<open>false\<close> to \<open>0\<close>, \<^verbatim>\<open>true\<close> to \<open>1\<close>), the operation is the one of
  \<^verbatim>\<open>int\<close>, and storing the result in an element converts it back (\<open>0\<close> to
  \<^verbatim>\<open>false\<close>, every other value to \<^verbatim>\<open>true\<close>). The literal \<open>0\<close> that the class assigns
  to elements converts in the same way.
\<close>

datatype cxx_bool = cxx_false | cxx_true

fun promote :: "cxx_bool \<Rightarrow> int" where
  "promote cxx_false = 0"
| "promote cxx_true = 1"

definition to_bool :: "int \<Rightarrow> cxx_bool" where
  "to_bool n = (if n = 0 then cxx_false else cxx_true)"

instantiation cxx_bool :: "{zero, plus, minus, uminus, times}"
begin

definition zero_cxx_bool :: cxx_bool where
  "zero_cxx_bool = to_bool 0"

definition plus_cxx_bool :: "cxx_bool \<Rightarrow> cxx_bool \<Rightarrow> cxx_bool" where
  "plus_cxx_bool x y = to_bool (promote x + promote y)"

definition minus_cxx_bool :: "cxx_bool \<Rightarrow> cxx_bool \<Rightarrow> cxx_bool" where
  "minus_cxx_bool x y = to_bool (promote x - promote y)"

definition uminus_cxx_bool :: "cxx_bool \<Rightarrow> cxx_bool" where
  "uminus_cxx_bool x = to_bool (- promote x)"

definition times_cxx_bool :: "cxx_bool \<Rightarrow> cxx_bool \<Rightarrow> cxx_bool" where
  "times_cxx_bool x y = to_bool (promote x * promote y)"

instance ..

end

section \<open>Notions used to state the properties\<close>

text \<open>
  \<open>fits r c\<close>: the number of elements of an \<open>r \<times> c\<close> matrix is itself a \<^verbatim>\<open>size_t\<close>,
  that is, \<^verbatim>\<open>r * c\<close> does not wrap. A buffer with more elements cannot exist.
\<close>

definition fits :: "'w::len word \<Rightarrow> 'w word \<Rightarrow> bool" where
  "fits r c \<longleftrightarrow> unat r * unat c < 2 ^ LENGTH('w)"

text \<open>
  \<open>matrix_owns m h buf\<close>: in the heap \<open>h\<close> the object \<open>m\<close> is a matrix in the sense of
  the data model: both sizes are positive, \<^verbatim>\<open>smart\<close> owns a live buffer, \<^verbatim>\<open>elements\<close>
  points to it, and the buffer \<open>buf\<close> has one cell for each of the \<open>rows \<times> cols\<close>
  elements. \<open>matrix_holds m h xs\<close>: moreover every cell has been written, and \<open>xs\<close>
  are the elements in row-major order.
\<close>

definition matrix_owns :: "'w::len word matrix \<Rightarrow> 'a heap \<Rightarrow> 'a option list \<Rightarrow> bool" where
  "matrix_owns m h buf \<longleftrightarrow>
     rows m \<noteq> 0 \<and> cols m \<noteq> 0 \<and> fits (rows m) (cols m) \<and>
     length buf = unat (rows m) * unat (cols m) \<and>
     elements m = smart m \<and>
     (case smart m of None \<Rightarrow> False | Some p \<Rightarrow> lookup h p = Some buf)"

definition matrix_holds :: "'w::len word matrix \<Rightarrow> 'a heap \<Rightarrow> 'a list \<Rightarrow> bool" where
  "matrix_holds m h xs \<longleftrightarrow> matrix_owns m h (map Some xs)"

text \<open>The element at row \<open>i\<close> and column \<open>j\<close> of the row-major list \<open>xs\<close>.\<close>

definition entry :: "'w::len word matrix \<Rightarrow> 'a list \<Rightarrow> nat \<Rightarrow> nat \<Rightarrow> 'a" where
  "entry m xs i j = xs ! (unat (cols m) * i + j)"

text \<open>
  \<open>established m h\<close>: what a constructor has to set up, in the arithmetic of
  \<^verbatim>\<open>size_t\<close>: positive sizes and an owned live buffer of \<^verbatim>\<open>rows * cols\<close> cells.
\<close>

definition established :: "'w::len word matrix \<Rightarrow> 'a heap \<Rightarrow> bool" where
  "established m h \<longleftrightarrow>
     0 < rows m \<and> 0 < cols m \<and> elements m = smart m \<and>
     (case smart m of
        None \<Rightarrow> False
      | Some p \<Rightarrow>
          (case lookup h p of
             None \<Rightarrow> False
           | Some buf \<Rightarrow> length buf = unat (rows m * cols m)))"

text \<open>
  \<open>atomic_outcome errs h res\<close>: the result \<open>res\<close> of a constructor started in the heap
  \<open>h\<close> is either one of the exceptions \<open>errs\<close> with the heap untouched (nothing was
  allocated, nothing is left behind), or an object for which \<open>established\<close> holds.
\<close>

definition atomic_outcome ::
  "error list \<Rightarrow> 'a heap \<Rightarrow> (error + 'w::len word matrix) \<times> 'a heap \<Rightarrow> bool" where
  "atomic_outcome errs h res \<longleftrightarrow>
     (case res of
        (Inl e, h') \<Rightarrow> e \<in> set errs \<and> h' = h
      | (Inr m, h') \<Rightarrow> established m h')"

text \<open>
  The heap \<open>h\<close> after one more allocation, the new buffer holding \<open>buf\<close>, and the
  object a constructor makes for it. \<open>partial_cells F K\<close> is a buffer that is to hold
  \<open>F\<close> and of which the first \<open>K\<close> cells are written.
\<close>

definition with_buffer :: "'a heap \<Rightarrow> 'a option list \<Rightarrow> 'a heap" where
  "with_buffer h buf = h\<lparr>arrays := arrays h @ [Some buf]\<rparr>"

definition fresh_matrix :: "'w::len word \<Rightarrow> 'w word \<Rightarrow> 'a heap \<Rightarrow> 'w word matrix" where
  "fresh_matrix r c h =
     \<lparr>rows = r, cols = c, elements = Some (length (arrays h)), smart = Some (length (arrays h))\<rparr>"

definition partial_cells :: "'a list \<Rightarrow> nat \<Rightarrow> 'a option list" where
  "partial_cells F K = map Some (take K F) @ replicate (length F - K) None"

text \<open>
  The sum of the first \<open>n\<close> products of row \<open>i\<close> of \<open>a\<close> and column \<open>j\<close> of \<open>b\<close>, and
  the row-major elements of the matrix product.
\<close>

definition dot ::
  "'w::len word matrix \<Rightarrow> 'a list \<Rightarrow> 'w word matrix \<Rightarrow> 'a list \<Rightarrow> nat \<Rightarrow> nat \<Rightarrow> nat \<Rightarrow> 'a::semiring_0" where
  "dot a A b B i j n = (\<Sum>k<n. entry a A i k * entry b B k j)"

definition product_cells ::
  "'w::len word matrix \<Rightarrow> 'a list \<Rightarrow> 'w word matrix \<Rightarrow> 'a list \<Rightarrow> 'a::semiring_0 list" where
  "product_cells a A b B =
     map (\<lambda>K. dot a A b B (K div unat (cols b)) (K mod unat (cols b)) (unat (cols a)))
       [0..<unat (rows a) * unat (cols b)]"

text \<open>The row-major elements of the \<open>n \<times> n\<close> matrix with \<open>xs\<close> on the diagonal.\<close>

definition diagonal_cells :: "nat \<Rightarrow> 'a::zero list \<Rightarrow> 'a list" where
  "diagonal_cells n xs = map (\<lambda>K. if K div n = K mod n then xs ! (K div n) else 0) [0..<n * n]"

text \<open>The text of row \<open>i\<close> and of the whole matrix, for the width \<open>w\<close>.\<close>

definition row_text ::
  "('a \<Rightarrow> string) \<Rightarrow> int \<Rightarrow> 'w::len word matrix \<Rightarrow> 'a list \<Rightarrow> nat \<Rightarrow> string" where
  "row_text shw w m xs i =
     ''( '' @ concat (map (\<lambda>j. setw_put w (shw (entry m xs i j)) @ '' '') [0..<unat (cols m)])
       @ '')'' @ [newline]"

definition matrix_text ::
  "('a \<Rightarrow> string) \<Rightarrow> int \<Rightarrow> 'w::len word matrix \<Rightarrow> 'a list \<Rightarrow> string" where
  "matrix_text shw w m xs =
     concat (map (row_text shw w m xs) [0..<unat (rows m)]) @ [newline]"

text \<open>A statement that ends with no exception: at worst its behaviour is undefined.\<close>

definition only_ub :: "('s, 'r) exec \<Rightarrow> bool" where
  "only_ub m \<longleftrightarrow> (\<forall>s e s'. m s = (Inl e, s') \<longrightarrow> e = undefined_behavior)"

section \<open>Facts about the model\<close>

subsection \<open>Statements\<close>

lemma seq_return_ok: "seq (return_ok x) f s = f x s"
  by (simp add: seq_def return_ok_def)

lemma seq_pure_read: "r s = Inr x \<Longrightarrow> seq (pure_read r) f s = f x s"
  by (simp add: seq_def pure_read_def)

lemma word_succ_unat:
  fixes i n :: "'w::len word"
  assumes "i < n"
  shows "unat (i + 1) = Suc (unat i)"
proof -
  from assms have "1 + i \<noteq> 0"
    by (metis eq_neg_iff_add_eq_0 verit_minus_simplify(4) word_order.extremum_strict)
  then have "unat (1 + i) = Suc (unat i)"
    by (rule unatSuc)
  then show ?thesis
    by (simp add: add.commute)
qed

lemma for_loop_steps:
  fixes i0 n :: "'w::len word"
  assumes step: "\<And>i. i0 \<le> i \<Longrightarrow> i < n \<Longrightarrow> body i (g (unat i)) = (Inr (), g (Suc (unat i)))"
    and le: "i0 \<le> n"
  shows "for_loop i0 n body (g (unat i0)) = (Inr (), g (unat n))"
  using assms
proof (induction "unat n - unat i0" arbitrary: i0)
  case 0
  then have "i0 = n"
    by (simp add: word_le_nat_alt word_unat_eq_iff)
  then show ?case
    by (simp add: for_loop.simps)
next
  case (Suc d)
  then have lt: "i0 < n"
    by (simp add: word_less_nat_alt)
  have su: "unat (i0 + 1) = Suc (unat i0)"
    using lt by (rule word_succ_unat)
  have le': "i0 + 1 \<le> n"
    using lt by (rule inc_le)
  have d: "d = unat n - unat (i0 + 1)"
    using Suc.hyps(2) su by simp
  have "for_loop (i0 + 1) n body (g (unat (i0 + 1))) = (Inr (), g (unat n))"
  proof (rule Suc.hyps(1) [OF d _ le'])
    fix i assume "i0 + 1 \<le> i" "i < n"
    moreover from \<open>i0 + 1 \<le> i\<close> have "i0 \<le> i"
      using su by (simp add: word_le_nat_alt)
    ultimately show "body i (g (unat i)) = (Inr (), g (Suc (unat i)))"
      by (simp add: Suc.prems(1))
  qed
  moreover have "body i0 (g (unat i0)) = (Inr (), g (Suc (unat i0)))"
    using lt by (simp add: Suc.prems(1))
  ultimately show ?case
    using lt su by (subst for_loop.simps) simp
qed

lemma for_loop_from_0:
  fixes n :: "'w::len word"
  assumes "\<And>i. i < n \<Longrightarrow> body i (g (unat i)) = (Inr (), g (Suc (unat i)))"
  shows "for_loop 0 n body (g 0) = (Inr (), g (unat n))"
  using for_loop_steps [of 0 n body g] assms by simp

lemma for_loop_nested:
  fixes R C :: "'w::len word"
  assumes "\<And>i j. i < R \<Longrightarrow> j < C \<Longrightarrow>
     body i j (G (unat C * unat i + unat j)) = (Inr (), G (Suc (unat C * unat i + unat j)))"
  shows "for_loop 0 R (\<lambda>i. for_loop 0 C (body i)) (G 0) = (Inr (), G (unat C * unat R))"
proof -
  have inner: "for_loop 0 C (body i) (G (unat C * unat i)) = (Inr (), G (unat C * Suc (unat i)))"
    if "i < R" for i
    using for_loop_from_0 [of C "body i" "\<lambda>j. G (unat C * unat i + j)"] assms [OF that]
    by (simp add: add.commute)
  show ?thesis
    using for_loop_from_0 [of R "\<lambda>i. for_loop 0 C (body i)" "\<lambda>r. G (unat C * r)"] inner
    by simp
qed

text \<open>A loop ends with an error only if its body does.\<close>

lemma for_loop_error:
  assumes "for_loop i n body s = (Inl e, s')"
  shows "\<exists>j t t'. body j t = (Inl e, t')"
  using assms
proof (induction i n body s rule: for_loop.induct)
  case (1 i n body s)
  show ?case
  proof (cases "i < n")
    case False
    with "1.prems" show ?thesis
      by (simp add: for_loop.simps)
  next
    case True
    obtain r t where b: "body i s = (r, t)"
      by (cases "body i s")
    show ?thesis
    proof (cases r)
      case (Inl e')
      with b True "1.prems" have "e' = e"
        by (simp add: for_loop.simps)
      with b Inl show ?thesis
        by blast
    next
      case (Inr u)
      with b True "1.prems" have "for_loop (i + 1) n body t = (Inl e, s')"
        by (simp add: for_loop.simps)
      with "1.IH" [OF True b [symmetric] Inr] show ?thesis
        by simp
    qed
  qed
qed

subsection \<open>The heap\<close>

lemma new_array_with_buffer:
  "new_array (length F) h = (length (arrays h), with_buffer h (partial_cells F 0))"
  by (simp add: new_array_def with_buffer_def partial_cells_def)

lemma lookup_with_buffer_new:
  "lookup (with_buffer h buf) (length (arrays h)) = Some buf"
  by (simp add: lookup_def with_buffer_def)

lemma lookup_with_buffer_old:
  "lookup h p = Some b \<Longrightarrow> lookup (with_buffer h buf) p = Some b"
  by (simp add: lookup_def with_buffer_def nth_append split: if_splits)

lemma write_with_buffer:
  "k < length buf \<Longrightarrow>
   write_elem (Some (length (arrays h))) k v (with_buffer h buf) =
     (Inr (), with_buffer h (buf[k := Some v]))"
  by (simp add: write_elem_def lookup_with_buffer_new) (simp add: with_buffer_def)

lemma read_with_buffer_new:
  "k < length buf \<Longrightarrow> buf ! k = Some v \<Longrightarrow>
   read_elem (Some (length (arrays h))) k (with_buffer h buf) = Inr v"
  by (simp add: read_elem_def lookup_with_buffer_new)

lemma partial_cells_length: "length (partial_cells F K) = length F"
  by (simp add: partial_cells_def)

lemma partial_cells_step:
  assumes "K < length F"
  shows "(partial_cells F K)[K := Some (F ! K)] = partial_cells F (Suc K)"
proof (rule nth_equalityI)
  show "length ((partial_cells F K)[K := Some (F ! K)]) = length (partial_cells F (Suc K))"
    by (simp add: partial_cells_length)
next
  fix k assume "k < length ((partial_cells F K)[K := Some (F ! K)])"
  then have k: "k < length F"
    by (simp add: partial_cells_length)
  consider "k < K" | "k = K" | "K < k"
    by linarith
  then show "(partial_cells F K)[K := Some (F ! K)] ! k = partial_cells F (Suc K) ! k"
  proof cases
    case 1
    with k assms show ?thesis
      by (simp add: partial_cells_def nth_append)
  next
    case 2
    with k assms show ?thesis
      by (simp add: partial_cells_def nth_append)
  next
    case 3
    with k assms show ?thesis
      by (simp add: partial_cells_def nth_append)
  qed
qed

lemma partial_cells_all: "partial_cells F (length F) = map Some F"
  by (simp add: partial_cells_def)

subsection \<open>Matrices in the heap\<close>

lemma flat_index:
  fixes R C i j :: "'w::len word"
  assumes "fits R C" "i < R" "j < C"
  shows "unat (C * i + j) = unat C * unat i + unat j"
    and "unat C * unat i + unat j < unat R * unat C"
proof -
  from assms have i: "Suc (unat i) \<le> unat R" and j: "unat j < unat C"
    by (simp_all add: word_less_nat_alt Suc_le_eq)
  have "unat C * Suc (unat i) \<le> unat C * unat R"
    using i by (rule mult_le_mono2)
  then have le: "unat C * unat i + unat C \<le> unat R * unat C"
    by (simp add: mult.commute)
  with j show lt: "unat C * unat i + unat j < unat R * unat C"
    by linarith
  from assms(1) have b: "unat R * unat C < 2 ^ LENGTH('w)"
    by (simp add: fits_def)
  from le b have "unat C * unat i < 2 ^ LENGTH('w)"
    by linarith
  then have m: "unat (C * i) = unat C * unat i"
    by (simp only: unat_mult_lem)
  from lt b have "unat (C * i) + unat j < 2 ^ LENGTH('w)"
    by (simp add: m)
  then have "unat (C * i + j) = unat (C * i) + unat j"
    by (simp only: unat_add_lem)
  with m show "unat (C * i + j) = unat C * unat i + unat j"
    by simp
qed

lemma fits_product:
  fixes R C :: "'w::len word"
  assumes "fits R C"
  shows "unat (R * C) = unat R * unat C"
  using assms by (simp add: fits_def unat_mult_lem)

lemma matrix_holds_read:
  assumes "matrix_holds m h xs" "k < length xs"
  shows "read_elem (elements m) k h = Inr (xs ! k)"
  using assms
  by (auto simp: matrix_holds_def matrix_owns_def read_elem_def split: option.splits)

lemma matrix_holds_call:
  assumes "matrix_holds m h xs" "i < rows m" "j < cols m"
  shows "operator_call m i j h = Inr (entry m xs (unat i) (unat j))"
proof -
  from assms(1) have f: "fits (rows m) (cols m)"
    and l: "length xs = unat (rows m) * unat (cols m)"
    by (simp_all add: matrix_holds_def matrix_owns_def)
  from flat_index [OF f assms(2,3)] l show ?thesis
    by (simp add: operator_call_def entry_def matrix_holds_read [OF assms(1)])
qed

lemma matrix_holds_with_buffer:
  "matrix_holds m h xs \<Longrightarrow> matrix_holds m (with_buffer h buf) xs"
  by (auto simp: matrix_holds_def matrix_owns_def lookup_with_buffer_old split: option.splits)

lemma matrix_holds_fresh:
  assumes "R \<noteq> 0" "C \<noteq> 0" "fits R C" "length F = unat R * unat C"
  shows "matrix_holds (fresh_matrix R C h) (with_buffer h (map Some F)) F"
  using assms by (simp add: matrix_holds_def matrix_owns_def fresh_matrix_def lookup_with_buffer_new)

lemma matrix_uninitialized_ok:
  assumes "R \<noteq> 0" "C \<noteq> 0" "length F = unat (R * C)"
  shows "matrix_uninitialized R C h = (Inr (fresh_matrix R C h), with_buffer h (partial_cells F 0))"
  using assms new_array_with_buffer [of F h]
  by (simp add: matrix_uninitialized_def fresh_matrix_def return_ok_def)

lemma call_assign_fresh:
  fixes R C i j :: "'w::len word"
  assumes "fits R C" "i < R" "j < C" "length buf = unat R * unat C"
  shows "operator_call_assign (fresh_matrix R C h) i j v (with_buffer h buf) =
    (Inr (), with_buffer h (buf[unat C * unat i + unat j := Some v]))"
  using flat_index [OF assms(1-3)] assms(4)
  by (simp add: operator_call_assign_def fresh_matrix_def write_with_buffer)

lemma fill_step:
  fixes R C i j :: "'w::len word"
  assumes "fits R C" "i < R" "j < C" "length F = unat R * unat C"
    and "F ! (unat C * unat i + unat j) = v"
  shows "operator_call_assign (fresh_matrix R C h) i j v
      (with_buffer h (partial_cells F (unat C * unat i + unat j))) =
    (Inr (), with_buffer h (partial_cells F (Suc (unat C * unat i + unat j))))"
proof -
  let ?K = "unat C * unat i + unat j"
  have K: "?K < length F"
    using flat_index(2) [OF assms(1-3)] assms(4) by simp
  have "operator_call_assign (fresh_matrix R C h) i j v (with_buffer h (partial_cells F ?K)) =
      (Inr (), with_buffer h ((partial_cells F ?K)[?K := Some v]))"
    by (rule call_assign_fresh [OF assms(1-3)]) (simp only: partial_cells_length assms(4))
  also have "(partial_cells F ?K)[?K := Some v] = partial_cells F (Suc ?K)"
    using partial_cells_step [OF K] assms(5) by simp
  finally show ?thesis .
qed

text \<open>Two nested loops that write the cells of a fresh buffer in row-major order.\<close>

lemma fill_rows_cols:
  fixes R C :: "'w::len word"
  assumes "length F = unat R * unat C"
    and "\<And>i j. i < R \<Longrightarrow> j < C \<Longrightarrow>
      body i j (with_buffer h (partial_cells F (unat C * unat i + unat j))) =
        (Inr (), with_buffer h (partial_cells F (Suc (unat C * unat i + unat j))))"
  shows "for_loop 0 R (\<lambda>i. for_loop 0 C (body i)) (with_buffer h (partial_cells F 0)) =
    (Inr (), with_buffer h (map Some F))"
  using for_loop_nested [of R C body "\<lambda>K. with_buffer h (partial_cells F K)"] assms
  by (simp add: mult.commute partial_cells_all [symmetric])

subsection \<open>The elementwise operators\<close>

lemma operator_plus_holds:
  fixes a b :: "'w::len word matrix" and h :: "'a::plus heap"
  assumes a: "matrix_holds a h A" and b: "matrix_holds b h B"
    and r: "rows a = rows b" and c: "cols a = cols b"
  shows "operator_plus a b h =
    (Inr (fresh_matrix (rows a) (cols a) h), with_buffer h (map Some (map2 (+) A B)))"
proof -
  let ?F = "map2 (+) A B"
  let ?c = "fresh_matrix (rows a) (cols a) h"
  from a have f: "fits (rows a) (cols a)" and nz: "rows a \<noteq> 0" "cols a \<noteq> 0"
    and la: "length A = unat (rows a) * unat (cols a)"
    by (simp_all add: matrix_holds_def matrix_owns_def)
  from b r c have lb: "length B = unat (rows a) * unat (cols a)"
    by (simp add: matrix_holds_def matrix_owns_def)
  from la lb have lf: "length ?F = unat (rows a) * unat (cols a)"
    by simp
  have lf': "length ?F = unat (rows a * cols a)"
    by (simp only: lf fits_product [OF f])
  have step: "seq (pure_read (operator_call a i j))
        (\<lambda>x. seq (pure_read (operator_call b i j)) (\<lambda>y. operator_call_assign ?c i j (x + y)))
        (with_buffer h (partial_cells ?F (unat (cols a) * unat i + unat j))) =
      (Inr (), with_buffer h (partial_cells ?F (Suc (unat (cols a) * unat i + unat j))))"
    if i: "i < rows a" and j: "j < cols a" for i j
  proof -
    let ?K = "unat (cols a) * unat i + unat j"
    let ?h = "with_buffer h (partial_cells ?F ?K)"
    have K: "?K < unat (rows a) * unat (cols a)"
      by (rule flat_index(2) [OF f i j])
    have ra: "operator_call a i j ?h = Inr (A ! ?K)"
      using matrix_holds_call [OF matrix_holds_with_buffer [OF a] i j]
      by (simp add: entry_def)
    have rb: "operator_call b i j ?h = Inr (B ! ?K)"
      using matrix_holds_call [OF matrix_holds_with_buffer [OF b]] i j r c
      by (simp add: entry_def)
    have "?F ! ?K = A ! ?K + B ! ?K"
      using K la lb by simp
    from fill_step [OF f i j lf this] ra rb show ?thesis
      by (simp add: seq_pure_read)
  qed
  have loop: "for_loop 0 (rows a) (\<lambda>i. for_loop 0 (cols a)
        (\<lambda>j. seq (pure_read (operator_call a i j))
           (\<lambda>x. seq (pure_read (operator_call b i j)) (\<lambda>y. operator_call_assign ?c i j (x + y)))))
      (with_buffer h (partial_cells ?F 0)) = (Inr (), with_buffer h (map Some ?F))"
    by (rule fill_rows_cols [OF lf]) (rule step)
  show ?thesis
    using r c matrix_uninitialized_ok [OF nz lf', of h] loop
    by (simp add: operator_plus_def seq_def return_ok_def)
qed

lemma call_fresh:
  fixes R C i j :: "'w::len word"
  assumes "fits R C" "i < R" "j < C" "length buf = unat R * unat C"
    and "buf ! (unat C * unat i + unat j) = Some v"
  shows "operator_call (fresh_matrix R C h) i j (with_buffer h buf) = Inr v"
  using flat_index [OF assms(1-3)] assms(4,5)
  by (simp add: operator_call_def fresh_matrix_def read_with_buffer_new)

lemma operator_times_holds:
  fixes a b :: "'w::len word matrix" and h :: "'a::semiring_0 heap"
  assumes a: "matrix_holds a h A" and b: "matrix_holds b h B"
    and ab: "cols a = rows b" and f: "fits (rows a) (cols b)"
  shows "operator_times a b h =
    (Inr (fresh_matrix (rows a) (cols b) h), with_buffer h (map Some (product_cells a A b B)))"
proof -
  let ?F = "product_cells a A b B"
  let ?c = "fresh_matrix (rows a) (cols b) h"
  let ?body = "\<lambda>i j. seq (operator_call_assign ?c i j 0)
      (\<lambda>_. for_loop 0 (cols a)
         (\<lambda>k. seq (pure_read (operator_call a i k))
            (\<lambda>x. seq (pure_read (operator_call b k j))
               (\<lambda>y. operator_call_add_assign ?c i j (x * y)))))"
  from a b have nz: "rows a \<noteq> 0" "cols b \<noteq> 0"
    by (simp_all add: matrix_holds_def matrix_owns_def)
  have lf: "length ?F = unat (rows a) * unat (cols b)"
    by (simp add: product_cells_def)
  have lf': "length ?F = unat (rows a * cols b)"
    by (simp only: lf fits_product [OF f])
  have step: "?body i j (with_buffer h (partial_cells ?F (unat (cols b) * unat i + unat j))) =
      (Inr (), with_buffer h (partial_cells ?F (Suc (unat (cols b) * unat i + unat j))))"
    if i: "i < rows a" and j: "j < cols b" for i j
  proof -
    let ?K = "unat (cols b) * unat i + unat j"
    let ?S = "dot a A b B (unat i) (unat j)"
    let ?G = "\<lambda>l. with_buffer h ((partial_cells ?F ?K)[?K := Some (?S l)])"
    have K: "?K < length ?F"
      using flat_index(2) [OF f i j] lf by simp
    have lp: "length ((partial_cells ?F ?K)[?K := Some v]) = unat (rows a) * unat (cols b)" for v
      by (simp add: partial_cells_length lf)
    have init: "operator_call_assign ?c i j 0 (with_buffer h (partial_cells ?F ?K)) = (Inr (), ?G 0)"
      using call_assign_fresh [OF f i j, where buf = "partial_cells ?F ?K" and h = h and v = 0]
      by (simp add: partial_cells_length lf dot_def)
    have acc: "seq (pure_read (operator_call a i k))
          (\<lambda>x. seq (pure_read (operator_call b k j))
             (\<lambda>y. operator_call_add_assign ?c i j (x * y))) (?G (unat k)) =
        (Inr (), ?G (Suc (unat k)))"
      if k: "k < cols a" for k
    proof -
      have ra: "operator_call a i k (?G (unat k)) = Inr (entry a A (unat i) (unat k))"
        by (rule matrix_holds_call [OF matrix_holds_with_buffer [OF a] i k])
      have rb: "operator_call b k j (?G (unat k)) = Inr (entry b B (unat k) (unat j))"
        using k ab by (intro matrix_holds_call [OF matrix_holds_with_buffer [OF b] _ j]) simp
      have rc: "operator_call ?c i j (?G (unat k)) = Inr (?S (unat k))"
        using K by (intro call_fresh [OF f i j lp]) (simp add: partial_cells_length)
      have "operator_call_assign ?c i j v (?G (unat k)) =
          (Inr (), with_buffer h ((partial_cells ?F ?K)[?K := Some (?S (unat k)), ?K := Some v]))" for v
        by (rule call_assign_fresh [OF f i j lp])
      then have w: "operator_call_assign ?c i j v (?G (unat k)) =
          (Inr (), with_buffer h ((partial_cells ?F ?K)[?K := Some v]))" for v
        by simp
      have "?S (Suc (unat k)) = ?S (unat k) + entry a A (unat i) (unat k) * entry b B (unat k) (unat j)"
        by (simp add: dot_def)
      with ra rb rc w show ?thesis
        by (simp add: seq_pure_read operator_call_add_assign_def)
    qed
    have loop: "for_loop 0 (cols a)
          (\<lambda>k. seq (pure_read (operator_call a i k))
             (\<lambda>x. seq (pure_read (operator_call b k j))
                (\<lambda>y. operator_call_add_assign ?c i j (x * y)))) (?G 0) =
        (Inr (), ?G (unat (cols a)))"
      by (rule for_loop_from_0) (rule acc)
    have "?K div unat (cols b) = unat i" "?K mod unat (cols b) = unat j"
      using j by (simp_all add: word_less_nat_alt)
    with K lf have "?F ! ?K = ?S (unat (cols a))"
      by (simp add: product_cells_def)
    with partial_cells_step [OF K] have "?G (unat (cols a)) = with_buffer h (partial_cells ?F (Suc ?K))"
      by simp
    with init loop show ?thesis
      by (simp add: seq_def)
  qed
  have loop: "for_loop 0 (rows a) (\<lambda>i. for_loop 0 (cols b) (?body i))
      (with_buffer h (partial_cells ?F 0)) = (Inr (), with_buffer h (map Some ?F))"
    by (rule fill_rows_cols [OF lf]) (rule step)
  show ?thesis
    using ab matrix_uninitialized_ok [OF nz lf', of h] loop
    by (simp add: operator_times_def seq_def return_ok_def)
qed

lemma operator_minus_holds:
  fixes a b :: "'w::len word matrix" and h :: "'a::minus heap"
  assumes a: "matrix_holds a h A" and b: "matrix_holds b h B"
    and r: "rows a = rows b" and c: "cols a = cols b"
  shows "operator_minus a b h =
    (Inr (fresh_matrix (rows a) (cols a) h), with_buffer h (map Some (map2 (-) A B)))"
proof -
  let ?F = "map2 (-) A B"
  let ?c = "fresh_matrix (rows a) (cols a) h"
  from a have f: "fits (rows a) (cols a)" and nz: "rows a \<noteq> 0" "cols a \<noteq> 0"
    and la: "length A = unat (rows a) * unat (cols a)"
    by (simp_all add: matrix_holds_def matrix_owns_def)
  from b r c have lb: "length B = unat (rows a) * unat (cols a)"
    by (simp add: matrix_holds_def matrix_owns_def)
  from la lb have lf: "length ?F = unat (rows a) * unat (cols a)"
    by simp
  have lf': "length ?F = unat (rows a * cols a)"
    by (simp only: lf fits_product [OF f])
  have step: "seq (pure_read (operator_call a i j))
        (\<lambda>x. seq (pure_read (operator_call b i j)) (\<lambda>y. operator_call_assign ?c i j (x - y)))
        (with_buffer h (partial_cells ?F (unat (cols a) * unat i + unat j))) =
      (Inr (), with_buffer h (partial_cells ?F (Suc (unat (cols a) * unat i + unat j))))"
    if i: "i < rows a" and j: "j < cols a" for i j
  proof -
    let ?K = "unat (cols a) * unat i + unat j"
    let ?h = "with_buffer h (partial_cells ?F ?K)"
    have K: "?K < unat (rows a) * unat (cols a)"
      by (rule flat_index(2) [OF f i j])
    have ra: "operator_call a i j ?h = Inr (A ! ?K)"
      using matrix_holds_call [OF matrix_holds_with_buffer [OF a] i j]
      by (simp add: entry_def)
    have rb: "operator_call b i j ?h = Inr (B ! ?K)"
      using matrix_holds_call [OF matrix_holds_with_buffer [OF b]] i j r c
      by (simp add: entry_def)
    have "?F ! ?K = A ! ?K - B ! ?K"
      using K la lb by simp
    from fill_step [OF f i j lf this] ra rb show ?thesis
      by (simp add: seq_pure_read)
  qed
  have loop: "for_loop 0 (rows a) (\<lambda>i. for_loop 0 (cols a)
        (\<lambda>j. seq (pure_read (operator_call a i j))
           (\<lambda>x. seq (pure_read (operator_call b i j)) (\<lambda>y. operator_call_assign ?c i j (x - y)))))
      (with_buffer h (partial_cells ?F 0)) = (Inr (), with_buffer h (map Some ?F))"
    by (rule fill_rows_cols [OF lf]) (rule step)
  show ?thesis
    using r c matrix_uninitialized_ok [OF nz lf', of h] loop
    by (simp add: operator_minus_def seq_def return_ok_def)
qed

lemma operator_neg_holds:
  fixes m :: "'w::len word matrix" and h :: "'a::uminus heap"
  assumes m: "matrix_holds m h A"
  shows "operator_neg m h =
    (Inr (fresh_matrix (rows m) (cols m) h), with_buffer h (map Some (map uminus A)))"
proof -
  let ?F = "map uminus A"
  let ?c = "fresh_matrix (rows m) (cols m) h"
  from m have f: "fits (rows m) (cols m)" and nz: "rows m \<noteq> 0" "cols m \<noteq> 0"
    and la: "length A = unat (rows m) * unat (cols m)"
    by (simp_all add: matrix_holds_def matrix_owns_def)
  from la have lf: "length ?F = unat (rows m) * unat (cols m)"
    by simp
  have lf': "length ?F = unat (rows m * cols m)"
    by (simp only: lf fits_product [OF f])
  have step: "seq (pure_read (operator_call m i j)) (\<lambda>x. operator_call_assign ?c i j (- x))
        (with_buffer h (partial_cells ?F (unat (cols m) * unat i + unat j))) =
      (Inr (), with_buffer h (partial_cells ?F (Suc (unat (cols m) * unat i + unat j))))"
    if i: "i < rows m" and j: "j < cols m" for i j
  proof -
    let ?K = "unat (cols m) * unat i + unat j"
    let ?h = "with_buffer h (partial_cells ?F ?K)"
    have K: "?K < unat (rows m) * unat (cols m)"
      by (rule flat_index(2) [OF f i j])
    have ra: "operator_call m i j ?h = Inr (A ! ?K)"
      using matrix_holds_call [OF matrix_holds_with_buffer [OF m] i j]
      by (simp add: entry_def)
    have "?F ! ?K = - (A ! ?K)"
      using K la by simp
    from fill_step [OF f i j lf this] ra show ?thesis
      by (simp add: seq_pure_read)
  qed
  have loop: "for_loop 0 (rows m) (\<lambda>i. for_loop 0 (cols m)
        (\<lambda>j. seq (pure_read (operator_call m i j)) (\<lambda>x. operator_call_assign ?c i j (- x))))
      (with_buffer h (partial_cells ?F 0)) = (Inr (), with_buffer h (map Some ?F))"
    by (rule fill_rows_cols [OF lf]) (rule step)
  show ?thesis
    using matrix_uninitialized_ok [OF nz lf', of h] loop
    by (simp add: operator_neg_def seq_def return_ok_def)
qed

subsection \<open>The constructors\<close>

text \<open>A single loop that writes the cells of a fresh buffer in order.\<close>

lemma fill_flat:
  fixes N :: "'w::len word"
  assumes "length F = unat N"
    and "\<And>i. i < N \<Longrightarrow>
      body i (with_buffer h (partial_cells F (unat i))) =
        (Inr (), with_buffer h (partial_cells F (Suc (unat i))))"
  shows "for_loop 0 N body (with_buffer h (partial_cells F 0)) = (Inr (), with_buffer h (map Some F))"
  using for_loop_from_0 [of N body "\<lambda>K. with_buffer h (partial_cells F K)"] assms
  by (simp add: partial_cells_all [symmetric])

lemma write_next:
  assumes "K < length F" "F ! K = v"
  shows "write_elem (Some (length (arrays h))) K v (with_buffer h (partial_cells F K)) =
    (Inr (), with_buffer h (partial_cells F (Suc K)))"
  using assms partial_cells_step [OF assms(1)]
  by (simp add: write_with_buffer partial_cells_length)

lemma matrix_init_ok:
  fixes R C :: "'w::len word"
  assumes nz: "R \<noteq> 0" "C \<noteq> 0"
  shows "matrix_init R C v h =
    (Inr (fresh_matrix R C h), with_buffer h (map Some (replicate (unat (R * C)) v)))"
proof -
  let ?F = "replicate (unat (R * C)) v"
  have lf: "length ?F = unat (R * C)"
    by simp
  have "for_loop 0 (R * C) (\<lambda>i. write_elem (Some (length (arrays h))) (unat i) v)
      (with_buffer h (partial_cells ?F 0)) = (Inr (), with_buffer h (map Some ?F))"
  proof (rule fill_flat [OF lf])
    fix i assume "i < R * C"
    then have "unat i < length ?F"
      by (simp add: word_less_nat_alt)
    then show "write_elem (Some (length (arrays h))) (unat i) v
        (with_buffer h (partial_cells ?F (unat i))) =
      (Inr (), with_buffer h (partial_cells ?F (Suc (unat i))))"
      by (intro write_next) simp_all
  qed
  with nz new_array_with_buffer [of ?F h] show ?thesis
    by (simp add: matrix_init_def fresh_matrix_def seq_def return_ok_def throw_def)
qed

lemma matrix_elements_ok:
  fixes R C :: "'w::len word"
  assumes nz: "R \<noteq> 0" "C \<noteq> 0" and len: "(of_nat (length xs) :: 'w word) = R * C"
  shows "matrix_elements R C xs h =
    (Inr (fresh_matrix R C h), with_buffer h (map Some (take (unat (R * C)) xs)))"
proof -
  let ?F = "take (unat (R * C)) xs"
  have "unat (R * C) = length xs mod 2 ^ LENGTH('w)"
    by (simp only: len [symmetric] unat_of_nat)
  then have le: "unat (R * C) \<le> length xs"
    by simp
  then have lf: "length ?F = unat (R * C)"
    by simp
  have "for_loop 0 (R * C)
      (\<lambda>i. seq (pure_read (\<lambda>_. vector_index xs i))
         (\<lambda>v. write_elem (Some (length (arrays h))) (unat i) v))
      (with_buffer h (partial_cells ?F 0)) = (Inr (), with_buffer h (map Some ?F))"
  proof (rule fill_flat [OF lf])
    fix i assume "i < R * C"
    then have i: "unat i < unat (R * C)"
      by (simp add: word_less_nat_alt)
    with le have "vector_index xs i = Inr (xs ! unat i)"
      by (simp add: vector_index_def)
    moreover have "write_elem (Some (length (arrays h))) (unat i) (xs ! unat i)
        (with_buffer h (partial_cells ?F (unat i))) =
      (Inr (), with_buffer h (partial_cells ?F (Suc (unat i))))"
      using i le by (intro write_next) simp_all
    ultimately show "seq (pure_read (\<lambda>_. vector_index xs i))
        (\<lambda>v. write_elem (Some (length (arrays h))) (unat i) v)
        (with_buffer h (partial_cells ?F (unat i))) =
      (Inr (), with_buffer h (partial_cells ?F (Suc (unat i))))"
      by (simp add: seq_pure_read)
  qed
  with nz len new_array_with_buffer [of ?F h] lf show ?thesis
    by (simp add: matrix_elements_def fresh_matrix_def seq_def return_ok_def throw_def)
qed

lemma matrix_copy_ok:
  fixes m :: "'w::len word matrix"
  assumes m: "matrix_holds m h xs"
  shows "matrix_copy m h =
    (Inr (fresh_matrix (rows m) (cols m) h), with_buffer h (map Some xs))"
proof -
  from m have f: "fits (rows m) (cols m)"
    and l: "length xs = unat (rows m) * unat (cols m)"
    by (simp_all add: matrix_holds_def matrix_owns_def)
  have lf: "length xs = unat (rows m * cols m)"
    by (simp only: l fits_product [OF f])
  have "for_loop 0 (rows m * cols m)
      (\<lambda>i. seq (pure_read (read_elem (elements m) (unat i)))
         (\<lambda>v. write_elem (Some (length (arrays h))) (unat i) v))
      (with_buffer h (partial_cells xs 0)) = (Inr (), with_buffer h (map Some xs))"
  proof (rule fill_flat [OF lf])
    fix i assume "i < rows m * cols m"
    then have i: "unat i < length xs"
      by (simp add: word_less_nat_alt lf)
    have "read_elem (elements m) (unat i) (with_buffer h (partial_cells xs (unat i))) = Inr (xs ! unat i)"
      by (rule matrix_holds_read [OF matrix_holds_with_buffer [OF m] i])
    moreover have "write_elem (Some (length (arrays h))) (unat i) (xs ! unat i)
        (with_buffer h (partial_cells xs (unat i))) =
      (Inr (), with_buffer h (partial_cells xs (Suc (unat i))))"
      using i by (intro write_next) simp_all
    ultimately show "seq (pure_read (read_elem (elements m) (unat i)))
        (\<lambda>v. write_elem (Some (length (arrays h))) (unat i) v)
        (with_buffer h (partial_cells xs (unat i))) =
      (Inr (), with_buffer h (partial_cells xs (Suc (unat i))))"
      by (simp add: seq_pure_read)
  qed
  with new_array_with_buffer [of xs h] lf show ?thesis
    by (simp add: matrix_copy_def fresh_matrix_def seq_def return_ok_def)
qed

lemma matrix_diagonal_ok:
  fixes n :: "'w::len word" and xs :: "'a::zero list"
  assumes n: "n = of_nat (length xs)" and nz: "n \<noteq> 0" and f: "fits n n"
  shows "(matrix_diagonal xs h :: (error + 'w word matrix) \<times> 'a heap) =
    (Inr (fresh_matrix n n h), with_buffer h (map Some (diagonal_cells (unat n) xs)))"
proof -
  let ?F = "diagonal_cells (unat n) xs"
  let ?c = "fresh_matrix n n h"
  have "unat n = length xs mod 2 ^ LENGTH('w)"
    by (simp only: n unat_of_nat)
  then have le: "unat n \<le> length xs"
    by simp
  have lf: "length ?F = unat n * unat n"
    by (simp add: diagonal_cells_def)
  have lf': "length ?F = unat (n * n)"
    by (simp only: lf fits_product [OF f])
  have step: "seq (if i = j then pure_read (\<lambda>_. vector_index xs i) else return_ok 0)
        (\<lambda>v. write_elem (elements ?c) (unat (cols ?c * i + j)) v)
        (with_buffer h (partial_cells ?F (unat n * unat i + unat j))) =
      (Inr (), with_buffer h (partial_cells ?F (Suc (unat n * unat i + unat j))))"
    if i: "i < n" and j: "j < n" for i j
  proof -
    let ?K = "unat n * unat i + unat j"
    have K: "?K < unat n * unat n"
      by (rule flat_index(2) [OF f i j])
    have dm: "?K div unat n = unat i" "?K mod unat n = unat j"
      using j by (simp_all add: word_less_nat_alt)
    have w: "write_elem (elements ?c) (unat (cols ?c * i + j)) (?F ! ?K)
        (with_buffer h (partial_cells ?F ?K)) =
      (Inr (), with_buffer h (partial_cells ?F (Suc ?K)))"
      using fill_step [OF f i j lf refl, of h]
      by (simp add: operator_call_assign_def)
    show ?thesis
    proof (cases "i = j")
      case True
      from i le have "vector_index xs i = Inr (xs ! unat i)"
        by (simp add: vector_index_def word_less_nat_alt)
      moreover from True K dm have "?F ! ?K = xs ! unat i"
        by (simp add: diagonal_cells_def)
      ultimately show ?thesis
        using True w by (simp add: seq_pure_read)
    next
      case False
      then have "unat i \<noteq> unat j"
        by (simp add: word_unat_eq_iff)
      with K dm have "?F ! ?K = 0"
        by (simp add: diagonal_cells_def)
      with False w show ?thesis
        by (simp add: seq_return_ok)
    qed
  qed
  have loop: "for_loop 0 n (\<lambda>i. for_loop 0 n
        (\<lambda>j. seq (if i = j then pure_read (\<lambda>_. vector_index xs i) else return_ok 0)
           (\<lambda>v. write_elem (elements ?c) (unat (cols ?c * i + j)) v)))
      (with_buffer h (partial_cells ?F 0)) = (Inr (), with_buffer h (map Some ?F))"
    by (rule fill_rows_cols [OF lf]) (rule step)
  show ?thesis
    using nz n [symmetric] new_array_with_buffer [of ?F h] lf' loop
    by (simp add: matrix_diagonal_def Let_def fresh_matrix_def seq_def return_ok_def throw_def)
qed

subsection \<open>Printing\<close>

lemma operator_shl_holds:
  fixes m :: "'w::len word matrix"
  assumes m: "matrix_holds m h xs"
  shows "operator_shl shw st h m out = (Inr (), out @ matrix_text shw (output_width st) m xs)"
proof -
  let ?w = "output_width st"
  let ?elt = "\<lambda>i j. setw_put ?w (shw (entry m xs i j)) @ '' ''"
  from m have nz: "rows m \<noteq> 0"
    by (simp add: matrix_holds_def matrix_owns_def)
  have row: "seq (put ''( '')
        (\<lambda>_. seq (for_loop 0 (cols m)
                     (\<lambda>j. seq (pure_read (\<lambda>_. operator_call m i j h))
                        (\<lambda>v. put (setw_put ?w (shw v) @ '' ''))))
           (\<lambda>_. put ('')'' @ [newline])))
        (out @ concat (map (row_text shw ?w m xs) [0..<unat i])) =
      (Inr (), out @ concat (map (row_text shw ?w m xs) [0..<Suc (unat i)]))"
    if i: "i < rows m" for i
  proof -
    let ?s = "out @ concat (map (row_text shw ?w m xs) [0..<unat i]) @ ''( ''"
    have "for_loop 0 (cols m)
        (\<lambda>j. seq (pure_read (\<lambda>_. operator_call m i j h))
           (\<lambda>v. put (setw_put ?w (shw v) @ '' '')))
        (?s @ concat (map (?elt (unat i)) [0..<0])) =
      (Inr (), ?s @ concat (map (?elt (unat i)) [0..<unat (cols m)]))"
    proof (rule for_loop_from_0 [where g = "\<lambda>n. ?s @ concat (map (?elt (unat i)) [0..<n])"])
      fix j assume j: "j < cols m"
      from matrix_holds_call [OF m i j]
      show "seq (pure_read (\<lambda>_. operator_call m i j h))
          (\<lambda>v. put (setw_put ?w (shw v) @ '' ''))
          (?s @ concat (map (?elt (unat i)) [0..<unat j])) =
        (Inr (), ?s @ concat (map (?elt (unat i)) [0..<Suc (unat j)]))"
        by (simp add: seq_pure_read put_def)
    qed
    then show ?thesis
      by (simp add: seq_def put_def row_text_def)
  qed
  have "for_loop 0 (rows m)
      (\<lambda>i. seq (put ''( '')
         (\<lambda>_. seq (for_loop 0 (cols m)
                      (\<lambda>j. seq (pure_read (\<lambda>_. operator_call m i j h))
                         (\<lambda>v. put (setw_put ?w (shw v) @ '' ''))))
            (\<lambda>_. put ('')'' @ [newline]))))
      (out @ concat (map (row_text shw ?w m xs) [0..<0])) =
    (Inr (), out @ concat (map (row_text shw ?w m xs) [0..<unat (rows m)]))"
    by (rule for_loop_from_0 [where g = "\<lambda>n. out @ concat (map (row_text shw ?w m xs) [0..<n])"])
      (rule row)
  with nz show ?thesis
    by (simp add: operator_shl_def seq_def put_def matrix_text_def)
qed

subsection \<open>Which errors a statement can end with\<close>

lemma only_ub_write: "only_ub (write_elem ptr k v)"
  by (auto simp: only_ub_def write_elem_def split: option.splits if_splits)

lemma only_ub_read: "only_ub (pure_read (read_elem ptr k))"
  by (auto simp: only_ub_def pure_read_def read_elem_def split: option.splits if_splits)

lemma only_ub_seq:
  assumes "only_ub m" "\<And>x. only_ub (f x)"
  shows "only_ub (seq m f)"
  using assms
  by (auto simp: only_ub_def seq_def split: prod.splits sum.splits)

lemma only_ub_for_loop:
  assumes "\<And>i. only_ub (body i)"
  shows "only_ub (for_loop i n body)"
  unfolding only_ub_def
proof (intro allI impI)
  fix s e s' assume "for_loop i n body s = (Inl e, s')"
  from for_loop_error [OF this] obtain j t t' where "body j t = (Inl e, t')"
    by (elim exE)
  with assms [of j] show "e = undefined_behavior"
    unfolding only_ub_def by blast
qed

lemma only_ub_call: "only_ub (pure_read (operator_call m i j))"
  using only_ub_read [of "elements m" "unat (cols m * i + j)"]
  by (simp add: only_ub_def pure_read_def operator_call_def)

lemma only_ub_call_assign: "only_ub (operator_call_assign m i j v)"
  using only_ub_write [of "elements m" "unat (cols m * i + j)" v]
  by (simp add: only_ub_def operator_call_assign_def)

lemma only_ub_call_add_assign: "only_ub (operator_call_add_assign m i j v)"
proof -
  have "only_ub (seq (pure_read (operator_call m i j)) (\<lambda>x. operator_call_assign m i j (x + v)))"
    by (intro only_ub_seq only_ub_call only_ub_call_assign)
  then show ?thesis
    by (simp add: only_ub_def operator_call_add_assign_def)
qed

lemma operator_times_errors:
  assumes "operator_times a b h = (Inl e, h')" "cols a = rows b"
  shows "e = zero_size \<or> e = undefined_behavior"
proof (cases "rows a = 0 \<or> cols b = 0")
  case True
  with assms show ?thesis
    by (auto simp: operator_times_def matrix_uninitialized_def seq_def throw_def)
next
  case False
  let ?loop = "\<lambda>c. for_loop 0 (rows a)
     (\<lambda>i. for_loop 0 (cols b)
        (\<lambda>j. seq (operator_call_assign c i j 0)
           (\<lambda>_. for_loop 0 (cols a)
              (\<lambda>k. seq (pure_read (operator_call a i k))
                 (\<lambda>x. seq (pure_read (operator_call b k j))
                    (\<lambda>y. operator_call_add_assign c i j (x * y)))))))"
  have ub: "only_ub (?loop c)" for c
    by (intro only_ub_for_loop only_ub_seq only_ub_call only_ub_call_assign
        only_ub_call_add_assign)
  obtain c h1 where c: "matrix_uninitialized (rows a) (cols b) h = (Inr c, h1)"
    using False by (simp add: matrix_uninitialized_def return_ok_def new_array_def)
  obtain r h2 where l: "?loop c h1 = (r, h2)"
    by (cases "?loop c h1")
  show ?thesis
  proof (cases r)
    case (Inl e')
    with ub [of c] l have "e' = undefined_behavior"
      unfolding only_ub_def by blast
    with assms c l Inl show ?thesis
      by (simp add: operator_times_def seq_def)
  next
    case (Inr u)
    with assms c l show ?thesis
      by (simp add: operator_times_def seq_def return_ok_def)
  qed
qed

subsection \<open>Writing into a matrix\<close>

lemma matrix_owns_write:
  assumes m: "matrix_owns m h buf" and k: "k < length buf"
  shows "\<exists>h'. write_elem (elements m) k v h = (Inr (), h') \<and>
    matrix_owns m h' (buf[k := Some v]) \<and> read_elem (elements m) k h' = Inr v"
proof -
  from m obtain p where p: "smart m = Some p" "elements m = Some p"
    and l: "lookup h p = Some buf"
    by (auto simp: matrix_owns_def split: option.splits)
  let ?h = "h\<lparr>arrays := (arrays h)[p := Some (buf[k := Some v])]\<rparr>"
  from l have pl: "p < length (arrays h)"
    by (simp add: lookup_def split: if_splits)
  from p l k have "write_elem (elements m) k v h = (Inr (), ?h)"
    by (simp add: write_elem_def)
  moreover from pl have lk: "lookup ?h p = Some (buf[k := Some v])"
    by (simp add: lookup_def)
  with m p have "matrix_owns m ?h (buf[k := Some v])"
    by (simp add: matrix_owns_def)
  moreover from lk p k have "read_elem (elements m) k ?h = Inr v"
    by (simp add: read_elem_def)
  ultimately show ?thesis
    by blast
qed

lemma matrix_owns_read:
  assumes "matrix_owns m h buf" "k < length buf"
  shows "read_elem (elements m) k h =
    (case buf ! k of None \<Rightarrow> Inl undefined_behavior | Some x \<Rightarrow> Inr x)"
  using assms
  by (auto simp: matrix_owns_def read_elem_def split: option.splits)

subsection \<open>Checked access\<close>

lemma at_holds:
  assumes "matrix_holds m h xs" "i < rows m" "j < cols m"
  shows "at m i j h = Inr (entry m xs (unat i) (unat j))"
proof -
  from assms(2,3) have "\<not> rows m \<le> i" "\<not> cols m \<le> j"
    by (simp_all add: not_le)
  with matrix_holds_call [OF assms] show ?thesis
    by (simp add: at_def operator_call_def)
qed

lemma at_error:
  "at m row col h = Inl index_out_of_range \<longleftrightarrow> rows m \<le> row \<or> cols m \<le> col"
  by (auto simp: at_def read_elem_def split: option.splits if_splits)

lemma at_assign_error:
  "fst (at_assign m row col v h) = Inl index_out_of_range \<longleftrightarrow> rows m \<le> row \<or> cols m \<le> col"
  by (auto simp: at_assign_def throw_def write_elem_def split: option.splits if_splits)

lemma word_pred_less:
  fixes x :: "'w::len word"
  assumes "x \<noteq> 0"
  shows "x - 1 < x"
  using assms less_eq_dec_triv_imp linorder_le_less_linear by blast

lemma last_index:
  fixes R C :: "'w::len word"
  assumes "R \<noteq> 0" "C \<noteq> 0"
  shows "unat (R - 1) * unat C + unat (C - 1) = unat R * unat C - 1"
proof -
  from assms have "unat R \<noteq> 0" "unat C \<noteq> 0"
    by (simp_all add: unat_eq_0)
  then obtain r c where rc: "unat R = Suc r" "unat C = Suc c"
    by (metis not0_implies_Suc)
  from assms have "unat (R - 1) = unat R - 1" "unat (C - 1) = unat C - 1"
    by (simp_all add: unat_minus_one)
  with rc show ?thesis
    by simp
qed

subsection \<open>The product and the example of the specification\<close>

lemma product_cells_nth:
  fixes a b :: "'w::len word matrix"
  assumes "i < unat (rows a)" "j < unat (cols b)"
  shows "product_cells a A b B ! (unat (cols b) * i + j) = dot a A b B i j (unat (cols a))"
proof -
  let ?K = "unat (cols b) * i + j"
  from assms(1) have "unat (cols b) * Suc i \<le> unat (cols b) * unat (rows a)"
    by (intro mult_le_mono2) simp
  with assms(2) have K: "?K < unat (rows a) * unat (cols b)"
    by (simp add: mult.commute)
  from assms(2) have dm: "?K div unat (cols b) = i" "?K mod unat (cols b) = j"
    by simp_all
  from K have "product_cells a A b B ! ?K =
      dot a A b B (?K div unat (cols b)) (?K mod unat (cols b)) (unat (cols a))"
    unfolding product_cells_def by (subst nth_map) simp_all
  then show ?thesis
    by (simp only: dm)
qed

lemma example_operands:
  fixes h0 :: "int heap"
  defines "x \<equiv> fresh_matrix (2 :: 64 word) 2 h0"
    and "h1 \<equiv> with_buffer h0 (map Some [1, 2, 3, 4])"
  defines "y \<equiv> fresh_matrix (2 :: 64 word) 2 h1"
    and "h2 \<equiv> with_buffer h1 (map Some [5, 6, 7, 8])"
  shows "matrix_elements_il 2 2 [1, 2, 3, 4] h0 = (Inr x, h1)"
    and "matrix_elements_il 2 2 [5, 6, 7, 8] h1 = (Inr y, h2)"
    and "matrix_holds x h2 [1, 2, 3, 4]"
    and "matrix_holds y h2 [5, 6, 7, 8]"
proof -
  have f: "fits (2 :: 64 word) 2"
    by (simp add: fits_def)
  show "matrix_elements_il 2 2 [1, 2, 3, 4] h0 = (Inr x, h1)"
    using matrix_elements_ok [of "2 :: 64 word" 2 "[1, 2, 3, 4]" h0]
    by (simp add: matrix_elements_il_def x_def h1_def)
  show "matrix_elements_il 2 2 [5, 6, 7, 8] h1 = (Inr y, h2)"
    using matrix_elements_ok [of "2 :: 64 word" 2 "[5, 6, 7, 8]" h1]
    by (simp add: matrix_elements_il_def y_def h2_def)
  have "matrix_holds x h1 [1, 2, 3, 4]"
    unfolding x_def h1_def by (rule matrix_holds_fresh [OF _ _ f]) simp_all
  then show "matrix_holds x h2 [1, 2, 3, 4]"
    unfolding h2_def by (rule matrix_holds_with_buffer)
  show "matrix_holds y h2 [5, 6, 7, 8]"
    unfolding y_def h2_def by (rule matrix_holds_fresh [OF _ _ f]) simp_all
qed

lemma upt_4: "[0..<4] = [0, 1, 2, 3]"
  by (simp add: upt_conv_Cons)

lemma sum_below_2: "(\<Sum>k<2. f k) = f 0 + (f (1 :: nat) :: 'a::comm_monoid_add)"
  by (simp add: numeral_2_eq_2)

lemma example_product:
  fixes x y :: "64 word matrix"
  assumes "cols x = 2" "cols y = 2" "rows x = 2"
  shows "product_cells x [1, 2, 3, 4] y [5, 6, 7, 8] = [19, 22, 43, 50 :: int]"
  using assms
  by (simp add: product_cells_def dot_def entry_def upt_4 sum_below_2)

subsection \<open>What the constructors establish\<close>

lemma established_fresh:
  fixes r c :: "'w::len word"
  assumes "r \<noteq> 0" "c \<noteq> 0" "length buf = unat (r * c)"
  shows "established (fresh_matrix r c h) (with_buffer h buf)"
  using assms
  by (simp add: established_def fresh_matrix_def lookup_with_buffer_new word_greater_zero_iff)

lemma matrix_uninitialized_fresh:
  fixes r c :: "'w::len word"
  assumes "r \<noteq> 0" "c \<noteq> 0"
  shows "matrix_uninitialized r c h =
    (Inr (fresh_matrix r c h), with_buffer h (replicate (unat (r * c)) None))"
  using assms
  by (simp add: matrix_uninitialized_def new_array_def fresh_matrix_def with_buffer_def
      return_ok_def)

lemma matrix_holds_established:
  assumes "matrix_holds m h xs"
  shows "established m h"
proof -
  from assms have "fits (rows m) (cols m)"
    by (simp add: matrix_holds_def matrix_owns_def)
  from fits_product [OF this] assms show ?thesis
    by (auto simp: matrix_holds_def matrix_owns_def established_def word_greater_zero_iff split: option.splits)
qed

subsection \<open>Releasing buffers\<close>

lemma delete_array_live:
  assumes "lookup h p = Some buf"
  shows "delete_array p h =
    (Inr (), h\<lparr>arrays := (arrays h)[p := None], deleted := deleted h @ [p]\<rparr>)"
  using assms by (simp add: delete_array_def)

lemma lookup_after_delete:
  assumes "q \<noteq> p"
  shows "lookup (h\<lparr>arrays := (arrays h)[q := None], deleted := ds\<rparr>) p = lookup h p"
  using assms by (simp add: lookup_def)

subsection \<open>The diagonal, and sums that cancel\<close>

lemma diagonal_cells_nth:
  assumes "i < n" "j < n"
  shows "diagonal_cells n xs ! (n * i + j) = (if i = j then xs ! i else 0)"
proof -
  let ?K = "n * i + j"
  from assms(1) have "n * Suc i \<le> n * n"
    by (intro mult_le_mono2) simp
  with assms(2) have K: "?K < n * n"
    by simp
  from assms(2) have dm: "?K div n = i" "?K mod n = j"
    by simp_all
  from K have "diagonal_cells n xs ! ?K =
      (if ?K div n = ?K mod n then xs ! (?K div n) else 0)"
    unfolding diagonal_cells_def by (subst nth_map) simp_all
  then show ?thesis
    by (simp only: dm)
qed

lemma add_then_cancel:
  fixes A B :: "'a::group_add list"
  assumes "length A = length B"
  shows "map2 (+) (map2 (+) A B) (map uminus B) = A"
  using assms
  by (intro nth_equalityI) (simp_all add: add.assoc)

lemma operator_plus_result:
  fixes x y :: "'w::len word matrix" and g :: "'a::plus heap"
  assumes x: "matrix_holds x g X" and y: "matrix_holds y g Y"
    and r: "rows x = rows y" and c: "cols x = cols y"
  shows "\<exists>z g'. operator_plus x y g = (Inr z, g') \<and>
    rows z = rows x \<and> cols z = cols x \<and>
    matrix_holds z g' (map2 (+) X Y) \<and>
    (\<forall>(u :: 'w word matrix) U. matrix_holds u g U \<longrightarrow> matrix_holds u g' U)"
proof -
  from x have nz: "rows x \<noteq> 0" "cols x \<noteq> 0" and f: "fits (rows x) (cols x)"
    and lx: "length X = unat (rows x) * unat (cols x)"
    by (simp_all add: matrix_holds_def matrix_owns_def)
  from y r c have ly: "length Y = unat (rows x) * unat (cols x)"
    by (simp add: matrix_holds_def matrix_owns_def)
  let ?z = "fresh_matrix (rows x) (cols x) g"
  let ?g = "with_buffer g (map Some (map2 (+) X Y))"
  have "operator_plus x y g = (Inr ?z, ?g)"
    by (rule operator_plus_holds [OF x y r c])
  moreover have "rows ?z = rows x" "cols ?z = cols x"
    by (simp_all add: fresh_matrix_def)
  moreover have "matrix_holds ?z ?g (map2 (+) X Y)"
    by (rule matrix_holds_fresh [OF nz f]) (simp add: lx ly)
  moreover have "matrix_holds u ?g U" if "matrix_holds u g U" for u :: "'w word matrix" and U
    using that by (rule matrix_holds_with_buffer)
  ultimately show ?thesis
    by blast
qed

lemma operator_neg_result:
  fixes x :: "'w::len word matrix" and g :: "'a::uminus heap"
  assumes x: "matrix_holds x g X"
  shows "\<exists>z g'. operator_neg x g = (Inr z, g') \<and>
    rows z = rows x \<and> cols z = cols x \<and>
    matrix_holds z g' (map uminus X) \<and>
    (\<forall>(u :: 'w word matrix) U. matrix_holds u g U \<longrightarrow> matrix_holds u g' U)"
proof -
  from x have nz: "rows x \<noteq> 0" "cols x \<noteq> 0" and f: "fits (rows x) (cols x)"
    and lx: "length X = unat (rows x) * unat (cols x)"
    by (simp_all add: matrix_holds_def matrix_owns_def)
  let ?z = "fresh_matrix (rows x) (cols x) g"
  let ?g = "with_buffer g (map Some (map uminus X))"
  have "operator_neg x g = (Inr ?z, ?g)"
    by (rule operator_neg_holds [OF x])
  moreover have "rows ?z = rows x" "cols ?z = cols x"
    by (simp_all add: fresh_matrix_def)
  moreover have "matrix_holds ?z ?g (map uminus X)"
    by (rule matrix_holds_fresh [OF nz f]) (simp add: lx)
  moreover have "matrix_holds u ?g U" if "matrix_holds u g U" for u :: "'w word matrix" and U
    using that by (rule matrix_holds_with_buffer)
  ultimately show ?thesis
    by blast
qed

lemma same_elements:
  fixes x y :: "'w::len word matrix"
  assumes "matrix_holds x g X" "matrix_holds y g' X" "rows y = rows x" "cols y = cols x"
    and "i < rows x" "j < cols x"
  shows "at y i j g' = at x i j g"
  using at_holds [OF assms(1) assms(5,6)] at_holds [OF assms(2), of i j] assms(3-6)
  by (simp add: entry_def)

section \<open>The properties\<close>

text \<open>
  \<^bold>\<open>C1\<close>, with the bound it needs. For matrices \<open>a\<close> and \<open>b\<close> with \<open>cols a = rows b\<close>,
  such that the number \<open>rows a * cols b\<close> of elements of the product is a \<^verbatim>\<open>size_t\<close>,
  the product \<^verbatim>\<open>a * b\<close> is a new matrix with \<open>rows a\<close> rows and \<open>cols b\<close> columns (its
  buffer is a fresh allocation, and \<open>a\<close> and \<open>b\<close> are as before) whose element \<open>(i, j)\<close>
  is the sum over \<open>k\<close> of \<open>a(i, k) * b(k, j)\<close>, a sum that starts from the \<open>0\<close> of the
  element type. The second part is the scenario of the specification: with \<open>{1,2,3,4}\<close>
  and \<open>{5,6,7,8}\<close> as \<open>2 \<times> 2\<close> matrices, the product holds \<open>{19,22,43,50}\<close> and the
  sum \<open>{6,8,10,12}\<close>.
\<close>

theorem C1_multiply:
  fixes a b :: "'w::len word matrix" and h :: "'a::semiring_0 heap"
  assumes "matrix_holds a h A" "matrix_holds b h B" "cols a = rows b" "fits (rows a) (cols b)"
  shows "(\<exists>c h'. operator_times a b h = (Inr c, h') \<and>
       rows c = rows a \<and> cols c = cols b \<and> smart c = Some (length (arrays h)) \<and>
       matrix_holds c h' (product_cells a A b B) \<and>
       matrix_holds a h' A \<and> matrix_holds b h' B \<and>
       (\<forall>i j. i < rows a \<longrightarrow> j < cols b \<longrightarrow>
          at c i j h' =
            Inr (\<Sum>k<unat (cols a). entry a A (unat i) k * entry b B k (unat j)))) \<and>
    (\<forall>h0 :: int heap. \<exists>x h1 y h2 p h3 s h4.
       matrix_elements_il (2 :: 64 word) 2 [1, 2, 3, 4] h0 = (Inr x, h1) \<and>
       matrix_elements_il (2 :: 64 word) 2 [5, 6, 7, 8] h1 = (Inr y, h2) \<and>
       operator_times x y h2 = (Inr p, h3) \<and> rows p = 2 \<and> cols p = 2 \<and>
       matrix_holds p h3 [19, 22, 43, 50] \<and>
       operator_plus x y h2 = (Inr s, h4) \<and> rows s = 2 \<and> cols s = 2 \<and>
       matrix_holds s h4 [6, 8, 10, 12])"
proof -
  let ?c = "fresh_matrix (rows a) (cols b) h"
  let ?F = "product_cells a A b B"
  let ?h = "with_buffer h (map Some ?F)"
  from assms(1,2) have nz: "rows a \<noteq> 0" "cols b \<noteq> 0"
    by (simp_all add: matrix_holds_def matrix_owns_def)
  have r: "operator_times a b h = (Inr ?c, ?h)"
    by (rule operator_times_holds [OF assms])
  have hc: "matrix_holds ?c ?h ?F"
    by (rule matrix_holds_fresh [OF nz assms(4)]) (simp add: product_cells_def)
  have el: "at ?c i j ?h = Inr (\<Sum>k<unat (cols a). entry a A (unat i) k * entry b B k (unat j))"
    if i: "i < rows a" and j: "j < cols b" for i j
  proof -
    from i j have "unat i < unat (rows a)" "unat j < unat (cols b)"
      by (simp_all add: word_less_nat_alt)
    from product_cells_nth [OF this, of A B] at_holds [OF hc, of i j] i j show ?thesis
      by (simp add: entry_def fresh_matrix_def dot_def)
  qed
  have general: "\<exists>c h'. operator_times a b h = (Inr c, h') \<and>
       rows c = rows a \<and> cols c = cols b \<and> smart c = Some (length (arrays h)) \<and>
       matrix_holds c h' (product_cells a A b B) \<and>
       matrix_holds a h' A \<and> matrix_holds b h' B \<and>
       (\<forall>i j. i < rows a \<longrightarrow> j < cols b \<longrightarrow>
          at c i j h' =
            Inr (\<Sum>k<unat (cols a). entry a A (unat i) k * entry b B k (unat j)))"
    using r hc el matrix_holds_with_buffer [OF assms(1)] matrix_holds_with_buffer [OF assms(2)]
    by (intro exI [of _ ?c] exI [of _ ?h]) (simp add: fresh_matrix_def)
  have example: "\<exists>x h1 y h2 p h3 s h4.
       matrix_elements_il (2 :: 64 word) 2 [1, 2, 3, 4] h0 = (Inr x, h1) \<and>
       matrix_elements_il (2 :: 64 word) 2 [5, 6, 7, 8] h1 = (Inr y, h2) \<and>
       operator_times x y h2 = (Inr p, h3) \<and> rows p = 2 \<and> cols p = 2 \<and>
       matrix_holds p h3 [19, 22, 43, 50] \<and>
       operator_plus x y h2 = (Inr s, h4) \<and> rows s = 2 \<and> cols s = 2 \<and>
       matrix_holds s h4 [6, 8, 10, 12]" for h0 :: "int heap"
  proof -
    let ?x = "fresh_matrix (2 :: 64 word) 2 h0"
    let ?h1 = "with_buffer h0 (map Some [1, 2, 3, 4])"
    let ?y = "fresh_matrix (2 :: 64 word) 2 ?h1"
    let ?h2 = "with_buffer ?h1 (map Some [5, 6, 7, 8])"
    let ?p = "fresh_matrix (2 :: 64 word) 2 ?h2"
    have f: "fits (2 :: 64 word) 2"
      by (simp add: fits_def)
    note ops = example_operands [of h0]
    have sh: "rows ?x = 2" "cols ?x = 2" "rows ?y = 2" "cols ?y = 2"
      by (simp_all add: fresh_matrix_def)
    have pc: "product_cells ?x [1, 2, 3, 4] ?y [5, 6, 7, 8] = [19, 22, 43, 50 :: int]"
      by (rule example_product) (simp_all add: fresh_matrix_def)
    have "operator_times ?x ?y ?h2 =
        (Inr (fresh_matrix (rows ?x) (cols ?y) ?h2),
         with_buffer ?h2 (map Some (product_cells ?x [1, 2, 3, 4] ?y [5, 6, 7, 8])))"
      by (rule operator_times_holds [OF ops(3,4)]) (simp_all add: fresh_matrix_def fits_def)
    then have t: "operator_times ?x ?y ?h2 =
        (Inr ?p, with_buffer ?h2 (map Some [19, 22, 43, 50]))"
      by (simp only: sh pc)
    have "operator_plus ?x ?y ?h2 =
        (Inr (fresh_matrix (rows ?x) (cols ?x) ?h2),
         with_buffer ?h2 (map Some (map2 (+) [1, 2, 3, 4] [5, 6, 7, 8])))"
      by (rule operator_plus_holds [OF ops(3,4)]) (simp_all add: fresh_matrix_def)
    moreover have "map2 (+) [1, 2, 3, 4] [5, 6, 7, 8] = [6, 8, 10, 12 :: int]"
      by simp
    ultimately have a: "operator_plus ?x ?y ?h2 =
        (Inr ?p, with_buffer ?h2 (map Some [6, 8, 10, 12]))"
      by (simp only: sh)
    have hp: "matrix_holds ?p (with_buffer ?h2 (map Some zs)) zs" if "length zs = 4" for zs :: "int list"
      by (rule matrix_holds_fresh [OF _ _ f]) (simp_all add: that)
    show ?thesis
      using ops(1,2) t a hp [of "[19, 22, 43, 50]"] hp [of "[6, 8, 10, 12]"]
      by (intro exI [of _ ?x] exI [of _ ?h1] exI [of _ ?y] exI [of _ ?h2] exI [of _ ?p]
          exI [of _ "with_buffer ?h2 (map Some [19, 22, 43, 50])"]
          exI [of _ "with_buffer ?h2 (map Some [6, 8, 10, 12])"])
        (simp add: fresh_matrix_def)
  qed
  from general example show ?thesis
    by (intro conjI allI)
qed

theorem C1_multiply_witness:
  "matrix_holds \<lparr>rows = (1 :: 64 word), cols = 2, elements = Some 0, smart = Some 0\<rparr>
     \<lparr>arrays = [Some [Some 1, Some 2], Some [Some 3, Some (4 :: int)]], deleted = []\<rparr> [1, 2] \<and>
   matrix_holds \<lparr>rows = (2 :: 64 word), cols = 1, elements = Some 1, smart = Some 1\<rparr>
     \<lparr>arrays = [Some [Some 1, Some 2], Some [Some 3, Some (4 :: int)]], deleted = []\<rparr> [3, 4] \<and>
   fits (1 :: 64 word) 1 \<and>
   (\<exists>c h'. operator_times
        \<lparr>rows = (1 :: 64 word), cols = 2, elements = Some 0, smart = Some 0\<rparr>
        \<lparr>rows = (2 :: 64 word), cols = 1, elements = Some 1, smart = Some 1\<rparr>
        \<lparr>arrays = [Some [Some 1, Some 2], Some [Some 3, Some (4 :: int)]], deleted = []\<rparr> =
        (Inr c, h') \<and>
      rows c = 1 \<and> cols c = 1 \<and> at c 0 0 h' = Inr 11)"
proof -
  let ?a = "\<lparr>rows = (1 :: 64 word), cols = 2, elements = Some 0, smart = Some 0\<rparr>"
  let ?b = "\<lparr>rows = (2 :: 64 word), cols = 1, elements = Some 1, smart = Some 1\<rparr>"
  let ?h = "\<lparr>arrays = [Some [Some 1, Some 2], Some [Some 3, Some (4 :: int)]], deleted = []\<rparr>"
  have a: "matrix_holds ?a ?h [1, 2]" and b: "matrix_holds ?b ?h [3, 4]"
    by (simp_all add: matrix_holds_def matrix_owns_def fits_def lookup_def)
  have c: "cols ?a = rows ?b" and f: "fits (rows ?a) (cols ?b)"
    by (simp_all add: fits_def)
  from C1_multiply [OF a b c f] obtain x h' where
    "operator_times ?a ?b ?h = (Inr x, h')" "rows x = 1" "cols x = 1"
    "at x 0 0 h' = Inr (\<Sum>k<unat (cols ?a). entry ?a [1, 2] (unat (0 :: 64 word)) k *
       entry ?b [3, 4] k (unat (0 :: 64 word)))"
    by auto
  moreover have "(\<Sum>k<unat (cols ?a). entry ?a [1, 2] (unat (0 :: 64 word)) k *
       entry ?b [3, 4] k (unat (0 :: 64 word))) = (11 :: int)"
    by (simp add: entry_def sum_below_2)
  ultimately show ?thesis
    using a b f by simp
qed

text \<open>
  \<^bold>\<open>C1\<close> fails without the bound. With a 64-bit \<^verbatim>\<open>size_t\<close>, let \<open>a\<close> be a
  \<open>2\<^sup>3\<^sup>2 \<times> 1\<close> and \<open>b\<close> a \<open>1 \<times> 2\<^sup>3\<^sup>2\<close> matrix. Both are matrices of the data model and
  \<open>cols a = rows b\<close>, but the size \<open>2\<^sup>3\<^sup>2 * 2\<^sup>3\<^sup>2\<close> of the result wraps to \<open>0\<close>: its
  buffer is allocated with no cell, no exception is raised, and the first assignment
  \<^verbatim>\<open>c(0, 0) = 0\<close> is outside the buffer.
\<close>

theorem C1_multiply_counterexample:
  "matrix_holds \<lparr>rows = (4294967296 :: 64 word), cols = 1, elements = Some 0, smart = Some 0\<rparr>
     \<lparr>arrays = [Some (map Some (replicate 4294967296 (1 :: int))),
                 Some (map Some (replicate 4294967296 1))], deleted = []\<rparr>
     (replicate 4294967296 1) \<and>
   matrix_holds \<lparr>rows = (1 :: 64 word), cols = 4294967296, elements = Some 1, smart = Some 1\<rparr>
     \<lparr>arrays = [Some (map Some (replicate 4294967296 (1 :: int))),
                 Some (map Some (replicate 4294967296 1))], deleted = []\<rparr>
     (replicate 4294967296 1) \<and>
   operator_times
     \<lparr>rows = (4294967296 :: 64 word), cols = 1, elements = Some 0, smart = Some 0\<rparr>
     \<lparr>rows = (1 :: 64 word), cols = 4294967296, elements = Some 1, smart = Some 1\<rparr>
     \<lparr>arrays = [Some (map Some (replicate 4294967296 (1 :: int))),
                 Some (map Some (replicate 4294967296 1))], deleted = []\<rparr> =
   (Inl undefined_behavior,
    \<lparr>arrays = [Some (map Some (replicate 4294967296 1)),
                Some (map Some (replicate 4294967296 1)), Some []], deleted = []\<rparr>)"
  by (simp add: matrix_holds_def matrix_owns_def fits_def operator_times_def
      matrix_uninitialized_def new_array_def return_ok_def for_loop.simps seq_def
      operator_call_assign_def write_elem_def lookup_def)

text \<open>
  \<^bold>\<open>C2\<close>, with the bound it needs. Each constructor that takes sizes or a sequence
  either sets up positive \<open>rows\<close> and \<open>cols\<close> and a buffer of \<^verbatim>\<open>rows * cols\<close> cells (the
  product as the code computes it, in \<^verbatim>\<open>size_t\<close>; it is the number of elements whenever
  that number is a \<^verbatim>\<open>size_t\<close>), or throws \<open>zero_size\<close> (the flattened forms also
  \<open>initializer_wrong_size\<close>) with the heap exactly as it was: the exception comes before
  the allocation, and nothing is left behind. \<open>zero_size\<close> is thrown exactly for a zero
  size, \<open>initializer_wrong_size\<close> exactly for positive sizes and a sequence of another
  length. For the diagonal forms this holds when the number \<open>n * n\<close> of elements is a
  \<^verbatim>\<open>size_t\<close>. The copy and the move constructor have no check of their own: from a
  matrix of the data model they set up the same state without throwing.
\<close>

theorem C2_constructors_atomic:
  fixes r c :: "'w::len word" and h :: "'a::zero heap" and m :: "'w word matrix"
  shows "atomic_outcome [zero_size] h (matrix_uninitialized r c h) \<and>
    (fst (matrix_uninitialized r c h) = Inl zero_size \<longleftrightarrow> r = 0 \<or> c = 0) \<and>
    atomic_outcome [zero_size] h (matrix_init r c v h) \<and>
    (fst (matrix_init r c v h) = Inl zero_size \<longleftrightarrow> r = 0 \<or> c = 0) \<and>
    atomic_outcome [zero_size, initializer_wrong_size] h (matrix_elements r c xs h) \<and>
    atomic_outcome [zero_size, initializer_wrong_size] h (matrix_elements_il r c xs h) \<and>
    (fst (matrix_elements r c xs h) = Inl zero_size \<longleftrightarrow> r = 0 \<or> c = 0) \<and>
    (fst (matrix_elements r c xs h) = Inl initializer_wrong_size \<longleftrightarrow>
       r \<noteq> 0 \<and> c \<noteq> 0 \<and> (of_nat (length xs) :: 'w word) \<noteq> r * c) \<and>
    (fits (of_nat (length ys) :: 'w word) (of_nat (length ys)) \<longrightarrow>
       atomic_outcome [zero_size] h
         (matrix_diagonal ys h :: (error + 'w word matrix) \<times> 'a heap) \<and>
       atomic_outcome [zero_size] h
         (matrix_diagonal_il ys h :: (error + 'w word matrix) \<times> 'a heap) \<and>
       (fst (matrix_diagonal ys h :: (error + 'w word matrix) \<times> 'a heap) = Inl zero_size \<longleftrightarrow>
          (of_nat (length ys) :: 'w word) = 0)) \<and>
    (matrix_holds m h zs \<longrightarrow>
       atomic_outcome [] h (matrix_copy m h) \<and> established (fst (matrix_move m)) h) \<and>
    (fits r c \<longrightarrow> unat (r * c) = unat r * unat c)"
proof -
  have u: "atomic_outcome [zero_size] h (matrix_uninitialized r c h) \<and>
      (fst (matrix_uninitialized r c h) = Inl zero_size \<longleftrightarrow> r = 0 \<or> c = 0)"
  proof (cases "r = 0 \<or> c = 0")
    case True
    then show ?thesis
      by (auto simp: matrix_uninitialized_def throw_def atomic_outcome_def)
  next
    case False
    with matrix_uninitialized_fresh [of r c h] established_fresh [of r c _ h] show ?thesis
      by (simp add: atomic_outcome_def)
  qed
  have i: "atomic_outcome [zero_size] h (matrix_init r c v h) \<and>
      (fst (matrix_init r c v h) = Inl zero_size \<longleftrightarrow> r = 0 \<or> c = 0)"
  proof (cases "r = 0 \<or> c = 0")
    case True
    then show ?thesis
      by (auto simp: matrix_init_def throw_def atomic_outcome_def)
  next
    case False
    with matrix_init_ok [of r c v h] established_fresh [of r c _ h] show ?thesis
      by (simp add: atomic_outcome_def)
  qed
  have e: "atomic_outcome [zero_size, initializer_wrong_size] h (matrix_elements r c xs h) \<and>
      (fst (matrix_elements r c xs h) = Inl zero_size \<longleftrightarrow> r = 0 \<or> c = 0) \<and>
      (fst (matrix_elements r c xs h) = Inl initializer_wrong_size \<longleftrightarrow>
         r \<noteq> 0 \<and> c \<noteq> 0 \<and> (of_nat (length xs) :: 'w word) \<noteq> r * c)"
  proof (cases "r = 0 \<or> c = 0")
    case True
    then show ?thesis
      by (auto simp: matrix_elements_def throw_def atomic_outcome_def)
  next
    case nz: False
    show ?thesis
    proof (cases "(of_nat (length xs) :: 'w word) = r * c")
      case False
      with nz show ?thesis
        by (simp add: matrix_elements_def throw_def atomic_outcome_def)
    next
      case True
      then have "unat (r * c) = length xs mod 2 ^ LENGTH('w)"
        by (simp only: True [symmetric] unat_of_nat)
      then have "length (map Some (take (unat (r * c)) xs)) = unat (r * c)"
        by simp
      from established_fresh [OF _ _ this, of h] nz True matrix_elements_ok [of r c xs h]
      show ?thesis
        by (simp add: atomic_outcome_def)
    qed
  qed
  have d: "atomic_outcome [zero_size] h
        (matrix_diagonal ys h :: (error + 'w word matrix) \<times> 'a heap) \<and>
      (fst (matrix_diagonal ys h :: (error + 'w word matrix) \<times> 'a heap) = Inl zero_size \<longleftrightarrow>
         (of_nat (length ys) :: 'w word) = 0)"
    if f: "fits (of_nat (length ys) :: 'w word) (of_nat (length ys))"
  proof (cases "(of_nat (length ys) :: 'w word) = 0")
    case True
    then show ?thesis
      by (simp add: matrix_diagonal_def throw_def atomic_outcome_def)
  next
    case False
    let ?n = "of_nat (length ys) :: 'w word"
    have "length (map Some (diagonal_cells (unat ?n) ys)) = unat (?n * ?n)"
      by (simp add: diagonal_cells_def fits_product [OF f])
    from established_fresh [OF False False this, of h] False
      matrix_diagonal_ok [OF refl False f, of h]
    show ?thesis
      by (simp add: atomic_outcome_def)
  qed
  have cp: "atomic_outcome [] h (matrix_copy m h) \<and> established (fst (matrix_move m)) h"
    if m: "matrix_holds m h zs"
  proof -
    from m have nz: "rows m \<noteq> 0" "cols m \<noteq> 0" and f: "fits (rows m) (cols m)"
      and l: "length zs = unat (rows m) * unat (cols m)"
      by (simp_all add: matrix_holds_def matrix_owns_def)
    have "length (map Some zs) = unat (rows m * cols m)"
      by (simp add: l fits_product [OF f])
    from established_fresh [OF nz this, of h] matrix_copy_ok [OF m]
    have "atomic_outcome [] h (matrix_copy m h)"
      by (simp add: atomic_outcome_def)
    moreover from matrix_holds_established [OF m]
    have "established (fst (matrix_move m)) h"
      by (auto simp: matrix_move_def established_def split: option.splits)
    ultimately show ?thesis ..
  qed
  from u i e d cp fits_product [of r c] show ?thesis
    by (simp add: matrix_elements_il_def matrix_diagonal_il_def)
qed

theorem C2_constructors_atomic_witness:
  "fits (of_nat (length [7, 8 :: int]) :: 64 word) (of_nat (length [7, 8 :: int])) \<and>
   matrix_holds \<lparr>rows = (1 :: 64 word), cols = 2, elements = Some 0, smart = Some 0\<rparr>
     \<lparr>arrays = [Some [Some 1, Some (2 :: int)]], deleted = []\<rparr> [1, 2] \<and>
   matrix_uninitialized (0 :: 64 word) 3 \<lparr>arrays = [Some [Some 1, Some (2 :: int)]], deleted = []\<rparr> =
     (Inl zero_size, \<lparr>arrays = [Some [Some 1, Some 2]], deleted = []\<rparr>) \<and>
   matrix_init (0 :: 64 word) 3 (5 :: int) \<lparr>arrays = [Some [Some 1, Some 2]], deleted = []\<rparr> =
     (Inl zero_size, \<lparr>arrays = [Some [Some 1, Some 2]], deleted = []\<rparr>) \<and>
   atomic_outcome [zero_size, initializer_wrong_size]
     \<lparr>arrays = [Some [Some 1, Some (2 :: int)]], deleted = []\<rparr>
     (matrix_elements (0 :: 64 word) 3 [1, 2, 3, 4, 5]
        \<lparr>arrays = [Some [Some 1, Some 2]], deleted = []\<rparr>) \<and>
   atomic_outcome [zero_size] \<lparr>arrays = [Some [Some 1, Some (2 :: int)]], deleted = []\<rparr>
     (matrix_diagonal [7, 8] \<lparr>arrays = [Some [Some 1, Some 2]], deleted = []\<rparr>
        :: (error + 64 word matrix) \<times> int heap) \<and>
   atomic_outcome [] \<lparr>arrays = [Some [Some 1, Some (2 :: int)]], deleted = []\<rparr>
     (matrix_copy \<lparr>rows = (1 :: 64 word), cols = 2, elements = Some 0, smart = Some 0\<rparr>
        \<lparr>arrays = [Some [Some 1, Some 2]], deleted = []\<rparr>)"
proof -
  let ?m = "\<lparr>rows = (1 :: 64 word), cols = 2, elements = Some 0, smart = Some 0\<rparr>"
  let ?h = "\<lparr>arrays = [Some [Some 1, Some (2 :: int)]], deleted = []\<rparr>"
  have f: "fits (of_nat (length [7, 8 :: int]) :: 64 word) (of_nat (length [7, 8 :: int]))"
    by (simp add: fits_def)
  have m: "matrix_holds ?m ?h [1, 2]"
    by (simp add: matrix_holds_def matrix_owns_def fits_def lookup_def)
  from C2_constructors_atomic
    [where r = "0 :: 64 word" and c = 3 and h = ?h and v = 5 and xs = "[1, 2, 3, 4, 5]"
      and ys = "[7, 8]" and m = ?m and zs = "[1, 2]"] f m
  show ?thesis
    by (auto simp: atomic_outcome_def split: prod.splits sum.splits)
qed

text \<open>
  \<^bold>\<open>C2\<close> fails as it stands. With a 64-bit \<^verbatim>\<open>size_t\<close>, the diagonal constructor on
  a sequence of \<open>2\<^sup>3\<^sup>2\<close> elements neither sets up the state nor throws before
  allocating: \<^verbatim>\<open>rows * cols\<close> wraps to \<open>0\<close>, a buffer with no cell is allocated, and the
  first assignment of the loop is outside of it. And the uninitialised constructor for
  \<open>2\<^sup>3\<^sup>2\<close> rows and columns returns, without an exception, an object whose buffer has
  no cell, not one for each of its \<open>2\<^sup>3\<^sup>2 * 2\<^sup>3\<^sup>2\<close> elements.
\<close>

theorem C2_constructors_atomic_counterexample:
  "(matrix_diagonal_il (replicate 4294967296 (0 :: int)) \<lparr>arrays = [], deleted = []\<rparr>
      :: (error + 64 word matrix) \<times> int heap) =
     (Inl undefined_behavior, \<lparr>arrays = [Some []], deleted = []\<rparr>) \<and>
   \<not> atomic_outcome [zero_size] \<lparr>arrays = [], deleted = []\<rparr>
     (matrix_diagonal_il (replicate 4294967296 (0 :: int)) \<lparr>arrays = [], deleted = []\<rparr>
        :: (error + 64 word matrix) \<times> int heap) \<and>
   matrix_uninitialized (4294967296 :: 64 word) 4294967296 \<lparr>arrays = [], deleted = []\<rparr> =
     (Inr \<lparr>rows = 4294967296, cols = 4294967296, elements = Some 0, smart = Some 0\<rparr>,
      \<lparr>arrays = [Some ([] :: int option list)], deleted = []\<rparr>) \<and>
   length ([] :: int option list) \<noteq> unat (4294967296 :: 64 word) * unat (4294967296 :: 64 word)"
  by (simp add: atomic_outcome_def matrix_diagonal_il_def matrix_diagonal_def new_array_def
      for_loop.simps seq_def pure_read_def vector_index_def write_elem_def lookup_def
      matrix_uninitialized_def return_ok_def)

text \<open>
  \<^bold>\<open>C3.\<close> Let \<open>m\<close> own a live buffer at \<open>p\<close>. The move constructor gives an object with
  the rows and columns of \<open>m\<close> that owns the buffer at \<open>p\<close> itself: the heap is no
  argument of \<open>matrix_move\<close>, so nothing is allocated or copied, every access gives what
  it gave on \<open>m\<close>, and the source is left with \<open>rows = 0\<close>, \<open>cols = 0\<close> and no buffer.
  Destroying the source deletes nothing and destroying the new object deletes \<open>p\<close>, so
  after both, in either order, \<open>p\<close> has been deleted exactly once. Move assignment to
  another object \<open>t\<close> (whose \<^verbatim>\<open>smart\<close> is empty or owns another live buffer) does the
  same, after deleting the buffer that \<open>t\<close> owned.
\<close>

theorem C3_move:
  fixes m t :: "'w::len word matrix" and h :: "'a heap"
  assumes own: "smart m = Some p" "elements m = Some p" "lookup h p = Some buf"
    and t: "smart t \<noteq> smart m" "case smart t of None \<Rightarrow> True | Some q \<Rightarrow> lookup h q \<noteq> None"
  shows "(case matrix_move m of
       (d, s) \<Rightarrow>
         rows d = rows m \<and> cols d = cols m \<and> elements d = Some p \<and> smart d = Some p \<and>
         (\<forall>i j. at d i j h = at m i j h) \<and>
         (\<forall>xs. matrix_holds m h xs \<longrightarrow> matrix_holds d h xs) \<and>
         s = \<lparr>rows = 0, cols = 0, elements = None, smart = None\<rparr> \<and>
         matrix_destroy s h = (Inr (), h) \<and>
         (\<exists>h'. matrix_destroy d h = (Inr (), h') \<and> deleted h' = deleted h @ [p] \<and>
            lookup h' p = None \<and> matrix_destroy s h' = (Inr (), h'))) \<and>
    (\<exists>d s h1. operator_assign_move t m h = (Inr (d, s), h1) \<and>
         rows d = rows m \<and> cols d = cols m \<and> elements d = Some p \<and> smart d = Some p \<and>
         lookup h1 p = Some buf \<and> length (arrays h1) = length (arrays h) \<and>
         (\<forall>i j. at d i j h1 = at m i j h) \<and>
         (\<forall>xs. matrix_holds m h xs \<longrightarrow> matrix_holds d h1 xs) \<and>
         s = \<lparr>rows = 0, cols = 0, elements = None, smart = None\<rparr> \<and>
         deleted h1 = deleted h @ (case smart t of None \<Rightarrow> [] | Some q \<Rightarrow> [q]) \<and>
         matrix_destroy s h1 = (Inr (), h1) \<and>
         (\<exists>h'. matrix_destroy d h1 = (Inr (), h') \<and> deleted h' = deleted h1 @ [p] \<and>
            lookup h' p = None \<and> matrix_destroy s h' = (Inr (), h')))"
proof -
  let ?d = "\<lparr>rows = rows m, cols = cols m, elements = Some p, smart = Some p\<rparr>"
  let ?s = "\<lparr>rows = 0, cols = 0, elements = None, smart = None\<rparr> :: 'w word matrix"
  have mv: "matrix_move m = (?d, ?s)"
    by (simp add: matrix_move_def own)
  have free: "matrix_destroy ?s g = (Inr (), g)" for g :: "'a heap"
    by (simp add: matrix_destroy_def unique_ptr_dispose_def)
  have last: "\<exists>h'. matrix_destroy ?d g = (Inr (), h') \<and> deleted h' = deleted g @ [p] \<and>
      lookup h' p = None \<and> matrix_destroy ?s h' = (Inr (), h')"
    if "lookup g p = Some buf" for g :: "'a heap"
    using delete_array_live [OF that] free
    by (simp add: matrix_destroy_def unique_ptr_dispose_def lookup_def)
  have same: "at ?d i j g = at m i j h" if "lookup g p = Some buf" for g :: "'a heap" and i j
    using that own by (simp add: at_def read_elem_def)
  have hd: "matrix_holds ?d g xs"
    if "lookup g p = Some buf" "matrix_holds m h xs" for g :: "'a heap" and xs
    using that own by (simp add: matrix_holds_def matrix_owns_def)
  have ctor: "case matrix_move m of
       (d, s) \<Rightarrow>
         rows d = rows m \<and> cols d = cols m \<and> elements d = Some p \<and> smart d = Some p \<and>
         (\<forall>i j. at d i j h = at m i j h) \<and>
         (\<forall>xs. matrix_holds m h xs \<longrightarrow> matrix_holds d h xs) \<and>
         s = \<lparr>rows = 0, cols = 0, elements = None, smart = None\<rparr> \<and>
         matrix_destroy s h = (Inr (), h) \<and>
         (\<exists>h'. matrix_destroy d h = (Inr (), h') \<and> deleted h' = deleted h @ [p] \<and>
            lookup h' p = None \<and> matrix_destroy s h' = (Inr (), h'))"
    using same [OF own(3)] hd [OF own(3)] last [OF own(3)] free [of h] by (simp add: mv)
  have "\<exists>h1. operator_assign_move t m h = (Inr (?d, ?s), h1) \<and>
      lookup h1 p = Some buf \<and> length (arrays h1) = length (arrays h) \<and>
      deleted h1 = deleted h @ (case smart t of None \<Rightarrow> [] | Some q \<Rightarrow> [q])"
  proof (cases "smart t")
    case None
    with own(3) show ?thesis
      by (simp add: operator_assign_move_def unique_ptr_dispose_def seq_def return_ok_def own)
  next
    case (Some q)
    with t obtain b where q: "lookup h q = Some b" and qp: "q \<noteq> p"
      by (auto simp: own)
    from delete_array_live [OF q] lookup_after_delete [OF qp, where h = h] own(3) Some
    show ?thesis
      by (simp add: operator_assign_move_def unique_ptr_dispose_def seq_def return_ok_def own)
  qed
  then obtain h1 where a: "operator_assign_move t m h = (Inr (?d, ?s), h1)"
    and l1: "lookup h1 p = Some buf"
    and n1: "length (arrays h1) = length (arrays h)"
    and d1: "deleted h1 = deleted h @ (case smart t of None \<Rightarrow> [] | Some q \<Rightarrow> [q])"
    by blast
  have asg: "\<exists>d s h1. operator_assign_move t m h = (Inr (d, s), h1) \<and>
         rows d = rows m \<and> cols d = cols m \<and> elements d = Some p \<and> smart d = Some p \<and>
         lookup h1 p = Some buf \<and> length (arrays h1) = length (arrays h) \<and>
         (\<forall>i j. at d i j h1 = at m i j h) \<and>
         (\<forall>xs. matrix_holds m h xs \<longrightarrow> matrix_holds d h1 xs) \<and>
         s = \<lparr>rows = 0, cols = 0, elements = None, smart = None\<rparr> \<and>
         deleted h1 = deleted h @ (case smart t of None \<Rightarrow> [] | Some q \<Rightarrow> [q]) \<and>
         matrix_destroy s h1 = (Inr (), h1) \<and>
         (\<exists>h'. matrix_destroy d h1 = (Inr (), h') \<and> deleted h' = deleted h1 @ [p] \<and>
            lookup h' p = None \<and> matrix_destroy s h' = (Inr (), h'))"
    using a l1 same [OF l1] hd [OF l1] n1 d1 free [of h1] last [OF l1]
    by (intro exI [of _ ?d] exI [of _ ?s] exI [of _ h1]) simp
  show ?thesis
    by (rule conjI [OF ctor asg])
qed

theorem C3_move_witness:
  "smart \<lparr>rows = (2 :: 64 word), cols = 1, elements = Some 1, smart = Some 1\<rparr> = Some 1 \<and>
   lookup \<lparr>arrays = [Some [Some 9], Some [Some 3, Some (4 :: int)]], deleted = []\<rparr> 1 =
     Some [Some 3, Some 4] \<and>
   matrix_move \<lparr>rows = (2 :: 64 word), cols = 1, elements = Some 1, smart = Some 1\<rparr> =
     (\<lparr>rows = 2, cols = 1, elements = Some 1, smart = Some 1\<rparr>,
      \<lparr>rows = 0, cols = 0, elements = None, smart = None\<rparr>) \<and>
   operator_assign_move \<lparr>rows = (1 :: 64 word), cols = 1, elements = Some 0, smart = Some 0\<rparr>
     \<lparr>rows = 2, cols = 1, elements = Some 1, smart = Some 1\<rparr>
     \<lparr>arrays = [Some [Some 9], Some [Some 3, Some (4 :: int)]], deleted = []\<rparr> =
     (Inr (\<lparr>rows = 2, cols = 1, elements = Some 1, smart = Some 1\<rparr>,
           \<lparr>rows = 0, cols = 0, elements = None, smart = None\<rparr>),
      \<lparr>arrays = [None, Some [Some 3, Some 4]], deleted = [0]\<rparr>) \<and>
   matrix_destroy \<lparr>rows = (2 :: 64 word), cols = 1, elements = Some 1, smart = Some 1\<rparr>
     \<lparr>arrays = [None, Some [Some 3, Some (4 :: int)]], deleted = [0]\<rparr> =
     (Inr (), \<lparr>arrays = [None, None], deleted = [0, 1]\<rparr>)"
  using C3_move
    [where m = "\<lparr>rows = (2 :: 64 word), cols = 1, elements = Some 1, smart = Some 1\<rparr>"
      and t = "\<lparr>rows = (1 :: 64 word), cols = 1, elements = Some 0, smart = Some 0\<rparr>"
      and h = "\<lparr>arrays = [Some [Some 9], Some [Some 3, Some (4 :: int)]], deleted = []\<rparr>"
      and p = 1 and buf = "[Some 3, Some 4]"]
  by (simp add: lookup_def matrix_move_def operator_assign_move_def matrix_destroy_def
      unique_ptr_dispose_def delete_array_def seq_def return_ok_def)

text \<open>
  \<^bold>\<open>C4.\<close> For a matrix with positive sizes (an object \<open>m\<close> that owns the buffer \<open>buf\<close>
  of its \<open>rows \<times> cols\<close> cells), \<^verbatim>\<open>at(row, col)\<close> raises \<open>index_out_of_range\<close>
  exactly when \<open>row \<ge> rows\<close> or \<open>col \<ge> cols\<close>, so also at \<^verbatim>\<open>at(rows, 0)\<close> and
  \<^verbatim>\<open>at(0, cols)\<close>; otherwise it returns the element stored at the flattened offset
  \<open>row * cols + col\<close> (the value written there; reading a cell that was never written
  is undefined), and \<^verbatim>\<open>at(rows - 1, cols - 1)\<close> is the access to the last cell. The form
  that returns a reference raises in the same cases, and otherwise an assignment through
  it writes that cell, after which \<^verbatim>\<open>at\<close> returns the value.
\<close>

theorem C4_checked_access:
  fixes m :: "'w::len word matrix" and h :: "'a heap"
  assumes "matrix_owns m h buf"
  shows "(at m row col h = Inl index_out_of_range \<longleftrightarrow> rows m \<le> row \<or> cols m \<le> col) \<and>
    (row < rows m \<and> col < cols m \<longrightarrow>
       at m row col h =
         (case buf ! (unat row * unat (cols m) + unat col) of
            None \<Rightarrow> Inl undefined_behavior
          | Some x \<Rightarrow> Inr x)) \<and>
    at m (rows m) 0 h = Inl index_out_of_range \<and>
    at m 0 (cols m) h = Inl index_out_of_range \<and>
    at m (rows m - 1) (cols m - 1) h =
      (case buf ! (length buf - 1) of None \<Rightarrow> Inl undefined_behavior | Some x \<Rightarrow> Inr x) \<and>
    (fst (at_assign m row col v h) = Inl index_out_of_range \<longleftrightarrow> rows m \<le> row \<or> cols m \<le> col) \<and>
    (row < rows m \<and> col < cols m \<longrightarrow>
       (\<exists>h'. at_assign m row col v h = (Inr (), h') \<and>
          matrix_owns m h' (buf[unat row * unat (cols m) + unat col := Some v]) \<and>
          at m row col h' = Inr v))"
proof -
  from assms have nz: "rows m \<noteq> 0" "cols m \<noteq> 0"
    and f: "fits (rows m) (cols m)"
    and l: "length buf = unat (rows m) * unat (cols m)"
    by (simp_all add: matrix_owns_def)
  have ix: "unat (cols m * i + j) = unat i * unat (cols m) + unat j"
      "unat i * unat (cols m) + unat j < length buf"
    if "i < rows m" "j < cols m" for i j
    using flat_index [OF f that] l by (simp_all add: mult.commute)
  have inside: "\<not> rows m \<le> i" "\<not> cols m \<le> j" if "i < rows m" "j < cols m" for i j
    using that by (simp_all add: not_le)
  have rd: "at m i j h =
      (case buf ! (unat i * unat (cols m) + unat j) of
         None \<Rightarrow> Inl undefined_behavior
       | Some x \<Rightarrow> Inr x)"
    if "i < rows m" "j < cols m" for i j
    using matrix_owns_read [OF assms ix(2) [OF that]] ix(1) [OF that] inside [OF that]
    by (simp add: at_def)
  have "at m (rows m - 1) (cols m - 1) h =
      (case buf ! (unat (rows m - 1) * unat (cols m) + unat (cols m - 1)) of
         None \<Rightarrow> Inl undefined_behavior
       | Some x \<Rightarrow> Inr x)"
    by (rule rd [OF word_pred_less [OF nz(1)] word_pred_less [OF nz(2)]])
  then have lst: "at m (rows m - 1) (cols m - 1) h =
      (case buf ! (length buf - 1) of None \<Rightarrow> Inl undefined_behavior | Some x \<Rightarrow> Inr x)"
    using last_index [OF nz] l by (simp add: mult.commute)
  have wr: "\<exists>h'. at_assign m row col v h = (Inr (), h') \<and>
      matrix_owns m h' (buf[unat row * unat (cols m) + unat col := Some v]) \<and>
      at m row col h' = Inr v"
    if r: "row < rows m" and c: "col < cols m"
    using matrix_owns_write [OF assms ix(2) [OF r c], of v] ix(1) [OF r c] inside [OF r c]
    by (simp add: at_assign_def at_def)
  show ?thesis
    using rd [of row col] lst wr by (simp add: at_error at_assign_error)
qed

theorem C4_checked_access_witness:
  "matrix_owns \<lparr>rows = (2 :: 64 word), cols = 3, elements = Some 0, smart = Some 0\<rparr>
     \<lparr>arrays = [Some [Some 1, Some 2, Some 3, Some 4, None, Some (6 :: int)]], deleted = []\<rparr>
     [Some 1, Some 2, Some 3, Some 4, None, Some 6] \<and>
   at \<lparr>rows = (2 :: 64 word), cols = 3, elements = Some 0, smart = Some 0\<rparr> 1 0
     \<lparr>arrays = [Some [Some 1, Some 2, Some 3, Some 4, None, Some (6 :: int)]], deleted = []\<rparr>
     = Inr 4 \<and>
   at \<lparr>rows = (2 :: 64 word), cols = 3, elements = Some 0, smart = Some 0\<rparr> 2 0
     \<lparr>arrays = [Some [Some 1, Some 2, Some 3, Some 4, None, Some (6 :: int)]], deleted = []\<rparr>
     = Inl index_out_of_range \<and>
   at \<lparr>rows = (2 :: 64 word), cols = 3, elements = Some 0, smart = Some 0\<rparr> 0 3
     \<lparr>arrays = [Some [Some 1, Some 2, Some 3, Some 4, None, Some (6 :: int)]], deleted = []\<rparr>
     = Inl index_out_of_range \<and>
   at \<lparr>rows = (2 :: 64 word), cols = 3, elements = Some 0, smart = Some 0\<rparr> (2 - 1) (3 - 1)
     \<lparr>arrays = [Some [Some 1, Some 2, Some 3, Some 4, None, Some (6 :: int)]], deleted = []\<rparr>
     = Inr 6 \<and>
   at_assign \<lparr>rows = (2 :: 64 word), cols = 3, elements = Some 0, smart = Some 0\<rparr> 1 1 5
     \<lparr>arrays = [Some [Some 1, Some 2, Some 3, Some 4, None, Some (6 :: int)]], deleted = []\<rparr>
     = (Inr (), \<lparr>arrays = [Some [Some 1, Some 2, Some 3, Some 4, Some 5, Some 6]], deleted = []\<rparr>)"
proof -
  let ?m = "\<lparr>rows = (2 :: 64 word), cols = 3, elements = Some 0, smart = Some 0\<rparr>"
  let ?buf = "[Some 1, Some 2, Some 3, Some 4, None, Some (6 :: int)]"
  let ?h = "\<lparr>arrays = [Some ?buf], deleted = []\<rparr>"
  have o: "matrix_owns ?m ?h ?buf"
    by (simp add: matrix_owns_def fits_def lookup_def)
  have r: "at ?m 1 0 ?h = Inr 4"
    using C4_checked_access [OF o, of 1 0] by simp
  have e: "at ?m 2 0 ?h = Inl index_out_of_range" "at ?m 0 3 ?h = Inl index_out_of_range"
      "at ?m (2 - 1) (3 - 1) ?h = Inr 6"
    using C4_checked_access [OF o, of 0 0] by simp_all
  have w: "at_assign ?m 1 1 5 ?h =
      (Inr (), \<lparr>arrays = [Some [Some 1, Some 2, Some 3, Some 4, Some 5, Some 6]], deleted = []\<rparr>)"
    by (simp add: at_assign_def write_elem_def lookup_def word_le_nat_alt)
  from o r e w show ?thesis
    by simp
qed

text \<open>
  \<^bold>\<open>C5.\<close> When the shapes of \<open>a\<close> and \<open>b\<close> differ, \<^verbatim>\<open>a + b\<close> and \<^verbatim>\<open>a - b\<close> both
  raise \<open>incompatible_sizes_add\<close>; \<^verbatim>\<open>a * b\<close> raises \<open>incompatible_sizes_multiply\<close>,
  a different exception, exactly when \<open>cols a \<noteq> rows b\<close>. So the sum of a \<open>2 \<times> 2\<close> and a
  \<open>3 \<times> 3\<close> matrix raises the first and the product of a \<open>2 \<times> 3\<close> and a \<open>2 \<times> 2\<close>
  matrix the second. In each case nothing has been allocated.
\<close>

theorem C5_shape_errors:
  fixes a b :: "'w::len word matrix" and h :: "'a::{zero,plus,minus,times} heap"
  shows "(rows a \<noteq> rows b \<or> cols a \<noteq> cols b \<longrightarrow>
       operator_plus a b h = (Inl incompatible_sizes_add, h) \<and>
       operator_minus a b h = (Inl incompatible_sizes_add, h)) \<and>
    (fst (operator_times a b h) = Inl incompatible_sizes_multiply \<longleftrightarrow> cols a \<noteq> rows b) \<and>
    (cols a \<noteq> rows b \<longrightarrow> operator_times a b h = (Inl incompatible_sizes_multiply, h)) \<and>
    incompatible_sizes_add \<noteq> incompatible_sizes_multiply \<and>
    (\<forall>(x :: 64 word matrix) y.
       rows x = 2 \<and> cols x = 2 \<and> rows y = 3 \<and> cols y = 3 \<longrightarrow>
       operator_plus x y h = (Inl incompatible_sizes_add, h)) \<and>
    (\<forall>(x :: 64 word matrix) y.
       rows x = 2 \<and> cols x = 3 \<and> rows y = 2 \<and> cols y = 2 \<longrightarrow>
       operator_times x y h = (Inl incompatible_sizes_multiply, h))"
proof -
  have "fst (operator_times a b h) \<noteq> Inl incompatible_sizes_multiply" if "cols a = rows b"
  proof
    assume "fst (operator_times a b h) = Inl incompatible_sizes_multiply"
    then have "operator_times a b h = (Inl incompatible_sizes_multiply, snd (operator_times a b h))"
      by (simp add: prod_eq_iff)
    from operator_times_errors [OF this that] show False
      by simp
  qed
  then show ?thesis
    by (auto simp: operator_plus_def operator_minus_def operator_times_def throw_def)
qed

theorem C5_shape_errors_witness:
  "operator_plus \<lparr>rows = (2 :: 64 word), cols = 2, elements = Some 0, smart = Some 0\<rparr>
     \<lparr>rows = 3, cols = 3, elements = Some 1, smart = Some 1\<rparr>
     \<lparr>arrays = [Some (replicate 4 (Some 1)), Some (replicate 9 (Some (1 :: int)))], deleted = []\<rparr> =
     (Inl incompatible_sizes_add,
      \<lparr>arrays = [Some (replicate 4 (Some 1)), Some (replicate 9 (Some (1 :: int)))], deleted = []\<rparr>) \<and>
   operator_times \<lparr>rows = (2 :: 64 word), cols = 3, elements = Some 0, smart = Some 0\<rparr>
     \<lparr>rows = 2, cols = 2, elements = Some 1, smart = Some 1\<rparr>
     \<lparr>arrays = [Some (replicate 6 (Some 1)), Some (replicate 4 (Some (1 :: int)))], deleted = []\<rparr> =
     (Inl incompatible_sizes_multiply,
      \<lparr>arrays = [Some (replicate 6 (Some 1)), Some (replicate 4 (Some (1 :: int)))], deleted = []\<rparr>)"
  using C5_shape_errors
    [of "\<lparr>rows = (2 :: 64 word), cols = 2, elements = Some 0, smart = Some 0\<rparr>"
      "\<lparr>rows = 3, cols = 3, elements = Some 1, smart = Some 1\<rparr>"
      "\<lparr>arrays = [Some (replicate 4 (Some 1)), Some (replicate 9 (Some (1 :: int)))], deleted = []\<rparr>"]
    C5_shape_errors
    [of "\<lparr>rows = (2 :: 64 word), cols = 3, elements = Some 0, smart = Some 0\<rparr>"
      "\<lparr>rows = 2, cols = 2, elements = Some 1, smart = Some 1\<rparr>"
      "\<lparr>arrays = [Some (replicate 6 (Some 1)), Some (replicate 4 (Some (1 :: int)))], deleted = []\<rparr>"]
  by simp

text \<open>
  \<^bold>\<open>C6\<close>, with the bound it needs. For a non-empty sequence \<open>s\<close> of length \<open>n\<close> such
  that the number \<open>n * n\<close> of elements is a \<^verbatim>\<open>size_t\<close>, the diagonal constructor (in both
  forms) gives an \<open>n \<times> n\<close> matrix with \<open>at(i, i) = s[i]\<close> and \<open>at(i, j) = 0\<close>, the zero of
  the element type, for \<open>i \<noteq> j\<close>; for the empty sequence it throws \<open>zero_size\<close>.
\<close>

theorem C6_diagonal:
  fixes s :: "'a::zero list" and h :: "'a heap"
  shows "(s \<noteq> [] \<and> length s * length s < 2 ^ LENGTH('w) \<longrightarrow>
      (\<exists>m h'. (matrix_diagonal s h :: (error + 'w::len word matrix) \<times> 'a heap) = (Inr m, h') \<and>
         matrix_diagonal_il s h = (Inr m, h') \<and>
         unat (rows m) = length s \<and> unat (cols m) = length s \<and>
         (\<forall>i j. i < rows m \<longrightarrow> j < cols m \<longrightarrow>
            at m i j h' = Inr (if i = j then s ! unat i else 0)))) \<and>
    (matrix_diagonal [] h :: (error + 'w word matrix) \<times> 'a heap) = (Inl zero_size, h) \<and>
    (matrix_diagonal_il [] h :: (error + 'w word matrix) \<times> 'a heap) = (Inl zero_size, h)"
proof -
  have ok: "\<exists>m h'. (matrix_diagonal s h :: (error + 'w word matrix) \<times> 'a heap) = (Inr m, h') \<and>
      matrix_diagonal_il s h = (Inr m, h') \<and>
      unat (rows m) = length s \<and> unat (cols m) = length s \<and>
      (\<forall>i j. i < rows m \<longrightarrow> j < cols m \<longrightarrow>
         at m i j h' = Inr (if i = j then s ! unat i else 0))"
    if ne: "s \<noteq> []" and sq: "length s * length s < 2 ^ LENGTH('w)"
  proof -
    let ?n = "of_nat (length s) :: 'w word"
    let ?m = "fresh_matrix ?n ?n h"
    let ?h = "with_buffer h (map Some (diagonal_cells (unat ?n) s))"
    from ne have pos: "0 < length s"
      by simp
    then have "length s \<le> length s * length s"
      by (cases "length s") simp_all
    with sq have "length s < 2 ^ LENGTH('w)"
      by linarith
    then have un: "unat ?n = length s"
      by (simp add: unat_of_nat)
    with pos have nz: "?n \<noteq> 0"
      by (metis less_numeral_extra(3) unat_0)
    from sq un have f: "fits ?n ?n"
      by (simp add: fits_def)
    have r: "(matrix_diagonal s h :: (error + 'w word matrix) \<times> 'a heap) = (Inr ?m, ?h)"
      by (rule matrix_diagonal_ok [OF refl nz f])
    have hd: "matrix_holds ?m ?h (diagonal_cells (unat ?n) s)"
      by (rule matrix_holds_fresh [OF nz nz f]) (simp add: diagonal_cells_def)
    have "at ?m i j ?h = Inr (if i = j then s ! unat i else 0)"
      if i: "i < rows ?m" and j: "j < cols ?m" for i j
    proof -
      from i j have "unat i < unat ?n" "unat j < unat ?n"
        by (simp_all add: fresh_matrix_def word_less_nat_alt)
      then have dc: "diagonal_cells (unat ?n) s ! (unat ?n * unat i + unat j) =
          (if unat i = unat j then s ! unat i else 0)"
        by (rule diagonal_cells_nth)
      have eq: "(unat i = unat j) = (i = j)"
        by (simp add: word_unat_eq_iff)
      from at_holds [OF hd i j]
      have "at ?m i j ?h = Inr (diagonal_cells (unat ?n) s ! (unat ?n * unat i + unat j))"
        by (simp add: entry_def fresh_matrix_def)
      then show ?thesis
        by (simp only: dc eq)
    qed
    with r un show ?thesis
      by (simp add: matrix_diagonal_il_def fresh_matrix_def)
  qed
  have "(matrix_diagonal [] h :: (error + 'w word matrix) \<times> 'a heap) = (Inl zero_size, h)"
    by (simp add: matrix_diagonal_def throw_def)
  with ok show ?thesis
    by (simp add: matrix_diagonal_il_def)
qed

theorem C6_diagonal_witness:
  "[7, 8 :: int] \<noteq> [] \<and> length [7, 8 :: int] * length [7, 8 :: int] < 2 ^ LENGTH(64) \<and>
   (\<exists>m h'. (matrix_diagonal [7, 8 :: int] \<lparr>arrays = [], deleted = []\<rparr>
        :: (error + 64 word matrix) \<times> int heap) = (Inr m, h') \<and>
      at m 0 0 h' = Inr 7 \<and> at m 0 1 h' = Inr 0 \<and> at m 1 0 h' = Inr 0 \<and> at m 1 1 h' = Inr 8)"
proof -
  have ne: "[7, 8 :: int] \<noteq> [] \<and> length [7, 8 :: int] * length [7, 8 :: int] < 2 ^ LENGTH(64)"
    by simp
  from C6_diagonal [where s = "[7, 8 :: int]" and h = "\<lparr>arrays = [], deleted = []\<rparr>"
      and 'w = 64] ne
  obtain m h' where r: "(matrix_diagonal [7, 8 :: int] \<lparr>arrays = [], deleted = []\<rparr>
        :: (error + 64 word matrix) \<times> int heap) = (Inr m, h')"
    and s: "unat (rows m) = 2" "unat (cols m) = 2"
    and e: "\<And>i j. i < rows m \<Longrightarrow> j < cols m \<Longrightarrow>
       at m i j h' = Inr (if i = j then [7, 8] ! unat i else 0)"
    by auto
  from s have "rows m = 2" "cols m = 2"
    by (simp_all add: word_unat_eq_iff)
  with e [of 0 0] e [of 0 1] e [of 1 0] e [of 1 1] r ne show ?thesis
    by simp
qed

text \<open>
  \<^bold>\<open>C6\<close> fails without the bound. With a 64-bit \<^verbatim>\<open>size_t\<close> and a sequence of \<open>2\<^sup>3\<^sup>2\<close>
  elements, \<^verbatim>\<open>rows * cols\<close> wraps to \<open>0\<close>: the buffer is allocated with no cell, no
  exception is raised, and the first assignment of the loop is outside the buffer. No
  matrix is constructed.
\<close>

theorem C6_diagonal_counterexample:
  "(matrix_diagonal (replicate 4294967296 (1 :: int)) \<lparr>arrays = [], deleted = []\<rparr>
      :: (error + 64 word matrix) \<times> int heap) =
   (Inl undefined_behavior, \<lparr>arrays = [Some []], deleted = []\<rparr>)"
  by (simp add: matrix_diagonal_def new_array_def for_loop.simps seq_def pure_read_def
      vector_index_def write_elem_def lookup_def)

text \<open>
  \<^bold>\<open>C7\<close>, for the element types at which it holds. Let the \<open>+\<close> and the unary \<open>-\<close> of
  the element type form a group: \<open>+\<close> is associative, \<open>0\<close> is neutral and \<open>- x\<close> is the
  inverse of \<open>x\<close>. Then for matrices \<open>a\<close> and \<open>b\<close> of the same shape,
  \<^verbatim>\<open>(a + b) + (-b)\<close> is a matrix of the shape of \<open>a\<close> that holds the elements of \<open>a\<close>:
  every checked access gives what it gives on \<open>a\<close>. C++ may compute \<^verbatim>\<open>a + b\<close> before
  \<^verbatim>\<open>-b\<close> or after it; both orders are covered. The two operators only apply the \<open>+\<close>
  and the \<open>-\<close> of the element type to each pair of elements, so the sums cancel as far
  as those of the element type do.
\<close>

theorem C7_add_negation:
  fixes a b :: "'w::len word matrix" and h :: "'a::group_add heap"
  assumes a: "matrix_holds a h A" and b: "matrix_holds b h B"
    and r: "rows a = rows b" and c: "cols a = cols b"
  shows "(\<exists>c h1 d h2 e h3.
       operator_plus a b h = (Inr c, h1) \<and>
       operator_neg b h1 = (Inr d, h2) \<and>
       operator_plus c d h2 = (Inr e, h3) \<and>
       rows e = rows a \<and> cols e = cols a \<and>
       matrix_holds e h3 A \<and>
       (\<forall>i j. i < rows a \<longrightarrow> j < cols a \<longrightarrow> at e i j h3 = at a i j h)) \<and>
    (\<exists>d h1 c h2 e h3.
       operator_neg b h = (Inr d, h1) \<and>
       operator_plus a b h1 = (Inr c, h2) \<and>
       operator_plus c d h2 = (Inr e, h3) \<and>
       rows e = rows a \<and> cols e = cols a \<and>
       matrix_holds e h3 A \<and>
       (\<forall>i j. i < rows a \<longrightarrow> j < cols a \<longrightarrow> at e i j h3 = at a i j h))"
proof -
  from a b r c have len: "length A = length B"
    by (simp add: matrix_holds_def matrix_owns_def)
  have cancel: "map2 (+) (map2 (+) A B) (map uminus B) = A"
    using len by (rule add_then_cancel)
  have first: "\<exists>c h1 d h2 e h3.
       operator_plus a b h = (Inr c, h1) \<and>
       operator_neg b h1 = (Inr d, h2) \<and>
       operator_plus c d h2 = (Inr e, h3) \<and>
       rows e = rows a \<and> cols e = cols a \<and>
       matrix_holds e h3 A \<and>
       (\<forall>i j. i < rows a \<longrightarrow> j < cols a \<longrightarrow> at e i j h3 = at a i j h)"
  proof -
    from operator_plus_result [OF a b r c]
    obtain s h1 where s: "operator_plus a b h = (Inr s, h1)"
      and ss: "rows s = rows a" "cols s = cols a"
      and hs: "matrix_holds s h1 (map2 (+) A B)"
      and k1: "\<And>u U. matrix_holds u h U \<Longrightarrow> matrix_holds (u :: 'w word matrix) h1 U"
      by blast
    from operator_neg_result [OF k1 [OF b]]
    obtain d h2 where d: "operator_neg b h1 = (Inr d, h2)"
      and sd: "rows d = rows b" "cols d = cols b"
      and hd: "matrix_holds d h2 (map uminus B)"
      and k2: "\<And>u U. matrix_holds u h1 U \<Longrightarrow> matrix_holds (u :: 'w word matrix) h2 U"
      by blast
    from ss sd r c have eq: "rows s = rows d" "cols s = cols d"
      by simp_all
    from operator_plus_result [OF k2 [OF hs] hd eq]
    obtain e h3 where e: "operator_plus s d h2 = (Inr e, h3)"
      and se: "rows e = rows s" "cols e = cols s"
      and he: "matrix_holds e h3 (map2 (+) (map2 (+) A B) (map uminus B))"
      by blast
    from he have he': "matrix_holds e h3 A"
      by (simp only: cancel)
    from se ss have sh: "rows e = rows a" "cols e = cols a"
      by simp_all
    have "at e i j h3 = at a i j h" if "i < rows a" "j < cols a" for i j
      by (rule same_elements [OF a he' sh that])
    with s d e sh he' show ?thesis
      by blast
  qed
  have second: "\<exists>d h1 c h2 e h3.
       operator_neg b h = (Inr d, h1) \<and>
       operator_plus a b h1 = (Inr c, h2) \<and>
       operator_plus c d h2 = (Inr e, h3) \<and>
       rows e = rows a \<and> cols e = cols a \<and>
       matrix_holds e h3 A \<and>
       (\<forall>i j. i < rows a \<longrightarrow> j < cols a \<longrightarrow> at e i j h3 = at a i j h)"
  proof -
    from operator_neg_result [OF b]
    obtain d h1 where d: "operator_neg b h = (Inr d, h1)"
      and sd: "rows d = rows b" "cols d = cols b"
      and hd: "matrix_holds d h1 (map uminus B)"
      and k1: "\<And>u U. matrix_holds u h U \<Longrightarrow> matrix_holds (u :: 'w word matrix) h1 U"
      by blast
    from operator_plus_result [OF k1 [OF a] k1 [OF b] r c]
    obtain s h2 where s: "operator_plus a b h1 = (Inr s, h2)"
      and ss: "rows s = rows a" "cols s = cols a"
      and hs: "matrix_holds s h2 (map2 (+) A B)"
      and k2: "\<And>u U. matrix_holds u h1 U \<Longrightarrow> matrix_holds (u :: 'w word matrix) h2 U"
      by blast
    from ss sd r c have eq: "rows s = rows d" "cols s = cols d"
      by simp_all
    from operator_plus_result [OF hs k2 [OF hd] eq]
    obtain e h3 where e: "operator_plus s d h2 = (Inr e, h3)"
      and se: "rows e = rows s" "cols e = cols s"
      and he: "matrix_holds e h3 (map2 (+) (map2 (+) A B) (map uminus B))"
      by blast
    from he have he': "matrix_holds e h3 A"
      by (simp only: cancel)
    from se ss have sh: "rows e = rows a" "cols e = cols a"
      by simp_all
    have "at e i j h3 = at a i j h" if "i < rows a" "j < cols a" for i j
      by (rule same_elements [OF a he' sh that])
    with s d e sh he' show ?thesis
      by blast
  qed
  from first second show ?thesis ..
qed

theorem C7_add_negation_witness:
  "matrix_holds \<lparr>rows = (1 :: 64 word), cols = 2, elements = Some 0, smart = Some 0\<rparr>
     \<lparr>arrays = [Some [Some 1, Some 2], Some [Some 30, Some (40 :: int)]], deleted = []\<rparr> [1, 2] \<and>
   matrix_holds \<lparr>rows = (1 :: 64 word), cols = 2, elements = Some 1, smart = Some 1\<rparr>
     \<lparr>arrays = [Some [Some 1, Some 2], Some [Some 30, Some (40 :: int)]], deleted = []\<rparr> [30, 40] \<and>
   (\<exists>c h1 d h2 e h3.
      operator_plus \<lparr>rows = (1 :: 64 word), cols = 2, elements = Some 0, smart = Some 0\<rparr>
        \<lparr>rows = (1 :: 64 word), cols = 2, elements = Some 1, smart = Some 1\<rparr>
        \<lparr>arrays = [Some [Some 1, Some 2], Some [Some 30, Some (40 :: int)]], deleted = []\<rparr> =
        (Inr c, h1) \<and>
      operator_neg \<lparr>rows = (1 :: 64 word), cols = 2, elements = Some 1, smart = Some 1\<rparr> h1 =
        (Inr d, h2) \<and>
      operator_plus c d h2 = (Inr e, h3) \<and>
      matrix_holds e h3 [1, 2])"
proof -
  let ?a = "\<lparr>rows = (1 :: 64 word), cols = 2, elements = Some 0, smart = Some 0\<rparr>"
  let ?b = "\<lparr>rows = (1 :: 64 word), cols = 2, elements = Some 1, smart = Some 1\<rparr>"
  let ?h = "\<lparr>arrays = [Some [Some 1, Some 2], Some [Some 30, Some (40 :: int)]], deleted = []\<rparr>"
  have a: "matrix_holds ?a ?h [1, 2]" and b: "matrix_holds ?b ?h [30, 40]"
    by (simp_all add: matrix_holds_def matrix_owns_def fits_def lookup_def)
  have r: "rows ?a = rows ?b" and c: "cols ?a = cols ?b"
    by simp_all
  from C7_add_negation [OF a b r c] a b show ?thesis
    by blast
qed

text \<open>
  \<^bold>\<open>C7\<close> fails at an element type whose operators are not a group. In
  \<^verbatim>\<open>matrix<bool>\<close>, with a 64-bit \<^verbatim>\<open>size_t\<close>, let \<open>a\<close> be the \<open>1 \<times> 1\<close> matrix holding
  \<^verbatim>\<open>false\<close> and \<open>b\<close> the one holding \<^verbatim>\<open>true\<close>. Then \<^verbatim>\<open>a + b\<close> holds \<^verbatim>\<open>true\<close>
  (\<open>0 + 1\<close>), \<^verbatim>\<open>-b\<close> holds \<^verbatim>\<open>true\<close> (\<open>- 1\<close> is not \<open>0\<close>) and their sum holds
  \<^verbatim>\<open>true\<close> (\<open>1 + 1\<close>), whichever of \<^verbatim>\<open>a + b\<close> and \<^verbatim>\<open>-b\<close> is computed first, while
  \<open>a\<close> holds \<^verbatim>\<open>false\<close>. The buffers of \<open>a\<close> and \<open>b\<close> are at the addresses \<open>0\<close> and
  \<open>1\<close>, those of the two intermediate results at \<open>2\<close> and \<open>3\<close>, the one of the final
  sum at \<open>4\<close>.
\<close>

theorem C7_add_negation_counterexample:
  "matrix_holds \<lparr>rows = (1 :: 64 word), cols = 1, elements = Some 0, smart = Some 0\<rparr>
     \<lparr>arrays = [Some [Some cxx_false], Some [Some cxx_true]], deleted = []\<rparr> [cxx_false] \<and>
   matrix_holds \<lparr>rows = (1 :: 64 word), cols = 1, elements = Some 1, smart = Some 1\<rparr>
     \<lparr>arrays = [Some [Some cxx_false], Some [Some cxx_true]], deleted = []\<rparr> [cxx_true] \<and>
   at \<lparr>rows = (1 :: 64 word), cols = 1, elements = Some 0, smart = Some 0\<rparr> 0 0
     \<lparr>arrays = [Some [Some cxx_false], Some [Some cxx_true]], deleted = []\<rparr> =
   Inr cxx_false \<and>
   operator_plus
     \<lparr>rows = (1 :: 64 word), cols = 1, elements = Some 0, smart = Some 0\<rparr>
     \<lparr>rows = (1 :: 64 word), cols = 1, elements = Some 1, smart = Some 1\<rparr>
     \<lparr>arrays = [Some [Some cxx_false], Some [Some cxx_true]], deleted = []\<rparr> =
   (Inr \<lparr>rows = 1, cols = 1, elements = Some 2, smart = Some 2\<rparr>,
    \<lparr>arrays = [Some [Some cxx_false], Some [Some cxx_true], Some [Some cxx_true]],
     deleted = []\<rparr>) \<and>
   operator_neg
     \<lparr>rows = (1 :: 64 word), cols = 1, elements = Some 1, smart = Some 1\<rparr>
     \<lparr>arrays = [Some [Some cxx_false], Some [Some cxx_true], Some [Some cxx_true]],
      deleted = []\<rparr> =
   (Inr \<lparr>rows = 1, cols = 1, elements = Some 3, smart = Some 3\<rparr>,
    \<lparr>arrays = [Some [Some cxx_false], Some [Some cxx_true], Some [Some cxx_true],
                Some [Some cxx_true]], deleted = []\<rparr>) \<and>
   operator_plus
     \<lparr>rows = (1 :: 64 word), cols = 1, elements = Some 2, smart = Some 2\<rparr>
     \<lparr>rows = (1 :: 64 word), cols = 1, elements = Some 3, smart = Some 3\<rparr>
     \<lparr>arrays = [Some [Some cxx_false], Some [Some cxx_true], Some [Some cxx_true],
                Some [Some cxx_true]], deleted = []\<rparr> =
   (Inr \<lparr>rows = 1, cols = 1, elements = Some 4, smart = Some 4\<rparr>,
    \<lparr>arrays = [Some [Some cxx_false], Some [Some cxx_true], Some [Some cxx_true],
                Some [Some cxx_true], Some [Some cxx_true]], deleted = []\<rparr>) \<and>
   operator_neg
     \<lparr>rows = (1 :: 64 word), cols = 1, elements = Some 1, smart = Some 1\<rparr>
     \<lparr>arrays = [Some [Some cxx_false], Some [Some cxx_true]], deleted = []\<rparr> =
   (Inr \<lparr>rows = 1, cols = 1, elements = Some 2, smart = Some 2\<rparr>,
    \<lparr>arrays = [Some [Some cxx_false], Some [Some cxx_true], Some [Some cxx_true]],
     deleted = []\<rparr>) \<and>
   operator_plus
     \<lparr>rows = (1 :: 64 word), cols = 1, elements = Some 0, smart = Some 0\<rparr>
     \<lparr>rows = (1 :: 64 word), cols = 1, elements = Some 1, smart = Some 1\<rparr>
     \<lparr>arrays = [Some [Some cxx_false], Some [Some cxx_true], Some [Some cxx_true]],
      deleted = []\<rparr> =
   (Inr \<lparr>rows = 1, cols = 1, elements = Some 3, smart = Some 3\<rparr>,
    \<lparr>arrays = [Some [Some cxx_false], Some [Some cxx_true], Some [Some cxx_true],
                Some [Some cxx_true]], deleted = []\<rparr>) \<and>
   operator_plus
     \<lparr>rows = (1 :: 64 word), cols = 1, elements = Some 3, smart = Some 3\<rparr>
     \<lparr>rows = (1 :: 64 word), cols = 1, elements = Some 2, smart = Some 2\<rparr>
     \<lparr>arrays = [Some [Some cxx_false], Some [Some cxx_true], Some [Some cxx_true],
                Some [Some cxx_true]], deleted = []\<rparr> =
   (Inr \<lparr>rows = 1, cols = 1, elements = Some 4, smart = Some 4\<rparr>,
    \<lparr>arrays = [Some [Some cxx_false], Some [Some cxx_true], Some [Some cxx_true],
                Some [Some cxx_true], Some [Some cxx_true]], deleted = []\<rparr>) \<and>
   at \<lparr>rows = (1 :: 64 word), cols = 1, elements = Some 4, smart = Some 4\<rparr> 0 0
     \<lparr>arrays = [Some [Some cxx_false], Some [Some cxx_true], Some [Some cxx_true],
                Some [Some cxx_true], Some [Some cxx_true]], deleted = []\<rparr> =
   Inr cxx_true"
  by (simp add: matrix_holds_def matrix_owns_def fits_def operator_plus_def operator_neg_def
      matrix_uninitialized_def new_array_def return_ok_def for_loop.simps seq_def pure_read_def
      operator_call_def operator_call_assign_def read_elem_def write_elem_def lookup_def at_def
      plus_cxx_bool_def uminus_cxx_bool_def to_bool_def)

text \<open>
  \<^bold>\<open>C8.\<close> Printing a matrix appends, for each row, \<open>( \<close>, then every element padded
  on the left with spaces to the width \<open>output_width\<close> and followed by a space, then
  \<open>)\<close> and a newline; after the last row comes one more newline. An element longer than
  the width is not cut. The width is the static variable, \<open>5\<close> until
  \<open>set_output_width\<close> changes it, and not part of any matrix. A matrix with zero rows
  and zero columns is printed as \<open>()\<close> and a newline.
\<close>

theorem C8_printing:
  fixes m :: "'w::len word matrix" and h :: "'a heap"
  shows "(matrix_holds m h xs \<longrightarrow>
       operator_shl shw st h m out = (Inr (), out @ matrix_text shw (output_width st) m xs)) \<and>
    matrix_text shw w m xs =
      concat (map (\<lambda>i. ''( '' @
                concat (map (\<lambda>j. setw_put w (shw (entry m xs i j)) @ '' '') [0..<unat (cols m)]) @
                '')'' @ [newline]) [0..<unat (rows m)]) @ [newline] \<and>
    setw_put w s = replicate (nat w - length s) CHR '' '' @ s \<and>
    length (setw_put w s) = max (nat w) (length s) \<and>
    (rows m = 0 \<and> cols m = 0 \<longrightarrow>
       operator_shl shw st h m out = (Inr (), out @ ''()'' @ [newline])) \<and>
    output_width initial_statics = 5 \<and>
    output_width (set_output_width w st) = w"
proof -
  have "nat (w - int (length s)) = nat w - length s"
    by linarith
  then have p: "setw_put w s = replicate (nat w - length s) CHR '' '' @ s"
    by (simp add: setw_put_def)
  then have l: "length (setw_put w s) = max (nat w) (length s)"
    by simp
  have t: "matrix_text shw w m xs =
      concat (map (\<lambda>i. ''( '' @
                concat (map (\<lambda>j. setw_put w (shw (entry m xs i j)) @ '' '') [0..<unat (cols m)]) @
                '')'' @ [newline]) [0..<unat (rows m)]) @ [newline]"
    by (simp add: matrix_text_def row_text_def [abs_def])
  have e: "operator_shl shw st h m out = (Inr (), out @ ''()'' @ [newline])"
    if "rows m = 0 \<and> cols m = 0"
    using that by (simp add: operator_shl_def put_def)
  from p l t e operator_shl_holds [of m h xs shw st out] show ?thesis
    by (simp add: initial_statics_def set_output_width_def)
qed

theorem C8_printing_witness:
  "matrix_holds \<lparr>rows = (2 :: 64 word), cols = 2, elements = Some 0, smart = Some 0\<rparr>
     \<lparr>arrays = [Some [Some 1, Some 22, Some 333, Some (4444 :: int)]], deleted = []\<rparr>
     [1, 22, 333, 4444] \<and>
   operator_shl
     (\<lambda>x. if x = 1 then ''1'' else if x = 22 then ''22'' else if x = 333 then ''333'' else ''4444'')
     (set_output_width 3 initial_statics)
     \<lparr>arrays = [Some [Some 1, Some 22, Some 333, Some (4444 :: int)]], deleted = []\<rparr>
     \<lparr>rows = (2 :: 64 word), cols = 2, elements = Some 0, smart = Some 0\<rparr> ''''
   = (Inr (), ''(   1  22 )'' @ [newline] @ ''( 333 4444 )'' @ [newline] @ [newline])"
proof -
  let ?m = "\<lparr>rows = (2 :: 64 word), cols = 2, elements = Some 0, smart = Some 0\<rparr>"
  let ?h = "\<lparr>arrays = [Some [Some 1, Some 22, Some 333, Some (4444 :: int)]], deleted = []\<rparr>"
  let ?shw = "\<lambda>x :: int. if x = 1 then ''1'' else if x = 22 then ''22''
    else if x = 333 then ''333'' else ''4444''"
  have m: "matrix_holds ?m ?h [1, 22, 333, 4444]"
    by (simp add: matrix_holds_def matrix_owns_def fits_def lookup_def)
  have "[0..<2] = [0, Suc 0]"
    by (simp add: upt_conv_Cons)
  moreover have "replicate 2 CHR '' '' = ''  ''"
    by (simp add: numeral_2_eq_2)
  ultimately have "matrix_text ?shw 3 ?m [1, 22, 333, 4444] =
      ''(   1  22 )'' @ [newline] @ ''( 333 4444 )'' @ [newline] @ [newline]"
    by (simp add: matrix_text_def row_text_def entry_def setw_put_def)
  with C8_printing [where m = ?m and h = ?h and xs = "[1, 22, 333, 4444]" and shw = ?shw
      and st = "set_output_width 3 initial_statics" and out = "''''" and w = 3] m
  show ?thesis
    by (simp add: set_output_width_def)
qed

text \<open>
  \<^bold>\<open>C9.\<close> On matrices in the state a move leaves behind (\<open>rows = 0\<close> and \<open>cols = 0\<close>)
  the arithmetic operators raise \<open>zero_size\<close>, thrown by the constructor of the result:
  the negation of such a matrix, and the sum, the difference and the product of two of
  them, neither succeed nor raise an exception about the shapes. The last part says it of
  the source of a move itself.
\<close>

theorem C9_empty_operands:
  fixes m a b :: "'w::len word matrix" and h :: "'a::{zero,plus,minus,uminus,times} heap"
  assumes "rows m = 0" "cols m = 0" "rows a = 0" "cols a = 0" "rows b = 0" "cols b = 0"
  shows "operator_neg m h = (Inl zero_size, h) \<and>
    operator_plus a b h = (Inl zero_size, h) \<and>
    operator_minus a b h = (Inl zero_size, h) \<and>
    operator_times a b h = (Inl zero_size, h) \<and>
    operator_neg (snd (matrix_move x :: 'w word matrix \<times> 'w word matrix)) h = (Inl zero_size, h)"
  using assms
  by (simp add: operator_neg_def operator_plus_def operator_minus_def operator_times_def
      matrix_uninitialized_def
      matrix_move_def seq_def throw_def)

theorem C9_empty_operands_witness:
  "operator_neg \<lparr>rows = (0 :: 64 word), cols = 0, elements = None, smart = None\<rparr>
     \<lparr>arrays = [Some [Some (1 :: int)]], deleted = []\<rparr> =
     (Inl zero_size, \<lparr>arrays = [Some [Some (1 :: int)]], deleted = []\<rparr>) \<and>
   operator_plus \<lparr>rows = (0 :: 64 word), cols = 0, elements = None, smart = None\<rparr>
     \<lparr>rows = 0, cols = 0, elements = None, smart = None\<rparr>
     \<lparr>arrays = [Some [Some (1 :: int)]], deleted = []\<rparr> =
     (Inl zero_size, \<lparr>arrays = [Some [Some (1 :: int)]], deleted = []\<rparr>) \<and>
   operator_minus \<lparr>rows = (0 :: 64 word), cols = 0, elements = None, smart = None\<rparr>
     \<lparr>rows = 0, cols = 0, elements = None, smart = None\<rparr>
     \<lparr>arrays = [Some [Some (1 :: int)]], deleted = []\<rparr> =
     (Inl zero_size, \<lparr>arrays = [Some [Some (1 :: int)]], deleted = []\<rparr>) \<and>
   operator_times \<lparr>rows = (0 :: 64 word), cols = 0, elements = None, smart = None\<rparr>
     \<lparr>rows = 0, cols = 0, elements = None, smart = None\<rparr>
     \<lparr>arrays = [Some [Some (1 :: int)]], deleted = []\<rparr> =
     (Inl zero_size, \<lparr>arrays = [Some [Some (1 :: int)]], deleted = []\<rparr>)"
  using C9_empty_operands
    [of "\<lparr>rows = (0 :: 64 word), cols = 0, elements = None, smart = None\<rparr>"
      "\<lparr>rows = (0 :: 64 word), cols = 0, elements = None, smart = None\<rparr>"
      "\<lparr>rows = (0 :: 64 word), cols = 0, elements = None, smart = None\<rparr>"
      "\<lparr>arrays = [Some [Some (1 :: int)]], deleted = []\<rparr>"]
  by simp

text \<open>
  \<^bold>\<open>C10.\<close> For positive \<open>r\<close> and \<open>c\<close> the constructors (uninitialised, filled, and
  flattened when the length of the sequence passes the test) allocate \<^verbatim>\<open>r * c\<close> cells in
  the arithmetic of \<^verbatim>\<open>size_t\<close>, that is \<open>(r * c) mod 2 ^ w\<close> for the width \<open>w\<close>. Only
  \<open>r\<close> and \<open>c\<close> are compared with zero, so when the product wraps no exception is raised
  and the buffer has fewer cells than the matrix has elements; for
  \<open>r = c = 2 ^ (w div 2)\<close>, \<open>w\<close> even, it has none.
\<close>

theorem C10_size_wraps:
  fixes r c :: "'w::len word" and h :: "'a heap"
  assumes "0 < r" "0 < c"
  shows "matrix_uninitialized r c h =
      (Inr (fresh_matrix r c h),
       with_buffer h (replicate ((unat r * unat c) mod 2 ^ LENGTH('w)) None)) \<and>
    matrix_init r c v h =
      (Inr (fresh_matrix r c h),
       with_buffer h (replicate ((unat r * unat c) mod 2 ^ LENGTH('w)) (Some v))) \<and>
    ((of_nat (length xs) :: 'w word) = r * c \<longrightarrow>
       matrix_elements r c xs h =
         (Inr (fresh_matrix r c h),
          with_buffer h (map Some (take ((unat r * unat c) mod 2 ^ LENGTH('w)) xs)))) \<and>
    (2 ^ LENGTH('w) \<le> unat r * unat c \<longrightarrow>
       (unat r * unat c) mod 2 ^ LENGTH('w) < unat r * unat c) \<and>
    (even LENGTH('w) \<and> r = 2 ^ (LENGTH('w) div 2) \<and> c = r \<longrightarrow>
       unat r * unat c = 2 ^ LENGTH('w) \<and>
       matrix_uninitialized r c h = (Inr (fresh_matrix r c h), with_buffer h []) \<and>
       matrix_init r c v h = (Inr (fresh_matrix r c h), with_buffer h []))"
proof -
  let ?N = "(unat r * unat c) mod 2 ^ LENGTH('w)"
  from assms have nz: "r \<noteq> 0" "c \<noteq> 0"
    by simp_all
  have N: "unat (r * c) = ?N"
    by (simp add: unat_word_ariths)
  have u: "matrix_uninitialized r c h =
      (Inr (fresh_matrix r c h), with_buffer h (replicate ?N None))"
    using nz N
    by (simp add: matrix_uninitialized_def new_array_def fresh_matrix_def with_buffer_def
        return_ok_def)
  have i: "matrix_init r c v h =
      (Inr (fresh_matrix r c h), with_buffer h (replicate ?N (Some v)))"
    using matrix_init_ok [OF nz, of v h] N by simp
  have el: "matrix_elements r c xs h =
      (Inr (fresh_matrix r c h), with_buffer h (map Some (take ?N xs)))"
    if "(of_nat (length xs) :: 'w word) = r * c"
    using matrix_elements_ok [OF nz that, of h] N by simp
  have w: "?N < unat r * unat c" if "2 ^ LENGTH('w) \<le> unat r * unat c"
  proof -
    have "?N < 2 ^ LENGTH('w)"
      by simp
    with that show ?thesis
      by linarith
  qed
  have e: "unat r * unat c = 2 ^ LENGTH('w)"
    if "even LENGTH('w)" "r = 2 ^ (LENGTH('w) div 2)" "c = r"
  proof -
    have "LENGTH('w) div 2 < LENGTH('w)"
      by simp
    then have "unat (2 ^ (LENGTH('w) div 2) :: 'w word) = 2 ^ (LENGTH('w) div 2)"
      by (simp add: of_nat_inverse)
    with that have "unat r * unat c = 2 ^ (LENGTH('w) div 2 + LENGTH('w) div 2)"
      by (simp add: power_add)
    also from that(1) have "LENGTH('w) div 2 + LENGTH('w) div 2 = LENGTH('w)"
      by presburger
    finally show ?thesis .
  qed
  have x: "unat r * unat c = 2 ^ LENGTH('w) \<and>
      matrix_uninitialized r c h = (Inr (fresh_matrix r c h), with_buffer h []) \<and>
      matrix_init r c v h = (Inr (fresh_matrix r c h), with_buffer h [])"
    if "even LENGTH('w) \<and> r = 2 ^ (LENGTH('w) div 2) \<and> c = r"
  proof -
    from that e have p: "unat r * unat c = 2 ^ LENGTH('w)"
      by blast
    then have "?N = 0"
      by simp
    with u i p show ?thesis
      by (simp only: replicate_0 simp_thms)
  qed
  from u i el w x show ?thesis
    by blast
qed

theorem C10_size_wraps_witness:
  "(0 :: 64 word) < 4294967296 \<and>
   unat (4294967296 :: 64 word) * unat (4294967296 :: 64 word) = 2 ^ LENGTH(64) \<and>
   matrix_uninitialized (4294967296 :: 64 word) 4294967296 \<lparr>arrays = [], deleted = []\<rparr> =
     (Inr \<lparr>rows = 4294967296, cols = 4294967296, elements = Some 0, smart = Some 0\<rparr>,
      \<lparr>arrays = [Some ([] :: int option list)], deleted = []\<rparr>) \<and>
   matrix_init (4294967296 :: 64 word) 4294967296 (7 :: int) \<lparr>arrays = [], deleted = []\<rparr> =
     (Inr \<lparr>rows = 4294967296, cols = 4294967296, elements = Some 0, smart = Some 0\<rparr>,
      \<lparr>arrays = [Some []], deleted = []\<rparr>)"
  using C10_size_wraps
    [where r = "4294967296 :: 64 word" and c = 4294967296 and v = "7 :: int"
      and h = "\<lparr>arrays = [], deleted = []\<rparr>"]
  by (simp add: fresh_matrix_def with_buffer_def)

end
